theory Spec2Isabelle
  imports Main "HOL-Library.Sublist" "HOL-Library.AList"
begin

section \<open>The webpack configuration of the WordPress packages (tools/webpack/packages.js)\<close>

text \<open>
  The file exports one function from the build options \<open>env\<close> to a webpack configuration
  object, and two helpers, \<open>camelCaseDash\<close> and \<open>mapVendorCopies\<close>. The embedding keeps the
  source's names. What the file imports from elsewhere (\<open>path.join\<close>, \<open>__dirname\<close>,
  \<open>process.env\<close>, \<open>UglifyJS.minify\<close>, the postcss/cssnano pipeline and the \<open>dependencies\<close> of
  package.json) is not part of it, and is a parameter of the model, collected in the record
  \<open>externals\<close>: every theorem holds for every implementation of them.
\<close>

subsection \<open>JavaScript values\<close>

text \<open>
  The option values the function reads are strings, booleans or absent (\<open>undefined\<close>).
  \<open>truthy\<close> is the test of \<open>c ? a : b\<close>; \<open>js_toString\<close> is the conversion that \<open>+\<close> with
  a string, and a template literal, apply.
\<close>

datatype js_value = Undefined | JBool bool | JStr string

fun truthy :: "js_value \<Rightarrow> bool" where
  "truthy Undefined = False"
| "truthy (JBool b) = b"
| "truthy (JStr s) = (s \<noteq> [])"

fun js_toString :: "js_value \<Rightarrow> string" where
  "js_toString Undefined = ''undefined''"
| "js_toString (JBool b) = (if b then ''true'' else ''false'')"
| "js_toString (JStr s) = s"

subsection \<open>Strings\<close>

text \<open>
  A string is its list of code units. The character class \<open>[a-z]\<close> is the range of codes
  97 to 122. \<open>toUpperCase\<close> is only ever applied to the single letter that \<open>[a-z]\<close> captured,
  where it subtracts 32 from the code.
\<close>

definition is_lower :: "char \<Rightarrow> bool" where
  "is_lower c \<longleftrightarrow> 97 \<le> (of_char c :: nat) \<and> (of_char c :: nat) \<le> 122"

definition is_digit :: "char \<Rightarrow> bool" where
  "is_digit c \<longleftrightarrow> 48 \<le> (of_char c :: nat) \<and> (of_char c :: nat) \<le> 57"

definition toUpperCase :: "char \<Rightarrow> char" where
  "toUpperCase c = (if is_lower c then char_of ((of_char c :: nat) - 32) else c)"

definition startsWith :: "string \<Rightarrow> string \<Rightarrow> bool" where
  "startsWith s searchString = prefix searchString s"

text \<open>
  \<open>s.replace(pattern, replacement)\<close> with a string pattern replaces the first occurrence
  only. (The replacement of this program is the empty string, so the \<open>$\<close> patterns of
  replacement strings play no role.)
\<close>

fun replace_str :: "string \<Rightarrow> string \<Rightarrow> string \<Rightarrow> string" where
  "replace_str [] pat rep = (if pat = [] then rep else [])"
| "replace_str (c # cs) pat rep =
     (if prefix pat (c # cs) then rep @ drop (length pat) (c # cs)
      else c # replace_str cs pat rep)"

text \<open>
  \<open>targetPath.replace( /\.css$/, '.min.css' )\<close>: the pattern is anchored at the end of the
  string, so it matches at most once, the last four characters.
\<close>

definition replace_css_min :: "string \<Rightarrow> string" where
  "replace_css_min targetPath =
     (if suffix ''.css'' targetPath
      then take (length targetPath - 4) targetPath @ ''.min.css''
      else targetPath)"

text \<open>\<open>Array.prototype.join\<close> on an array of strings.\<close>

fun array_join :: "string list \<Rightarrow> string \<Rightarrow> string" where
  "array_join [] sep = []"
| "array_join [a] sep = a"
| "array_join (a # b # bs) sep = a @ sep @ array_join (b # bs) sep"

subsection \<open>Objects with string keys\<close>

text \<open>
  An object with string values is the list of its own properties in enumeration order:
  the names that are array indices first, in ascending numeric order, then the other
  names in the order of their creation. \<open>Object.keys\<close> lists the names, and \<open>o[k]\<close>, for
  an own property name, reads the property (\<open>undefined\<close> when there is none, which a
  template literal prints as the text undefined).
\<close>

type_synonym js_object = "(string \<times> string) list"

definition Object_keys :: "js_object \<Rightarrow> string list" where
  "Object_keys obj = map fst obj"

definition obj_get :: "js_object \<Rightarrow> string \<Rightarrow> js_value" where
  "obj_get obj k = (case map_of obj k of None \<Rightarrow> Undefined | Some v \<Rightarrow> JStr v)"

text \<open>
  A name is an array index when it is the decimal text, without sign or leading zero,
  of an integer from 0 to \<open>2\<^sup>3\<^sup>2 - 2\<close>.
\<close>

definition decimal :: "string \<Rightarrow> int" where
  "decimal s = foldl (\<lambda>n c. 10 * n + ((of_char c :: int) - 48)) 0 s"

definition is_array_index :: "string \<Rightarrow> bool" where
  "is_array_index s \<longleftrightarrow>
     s \<noteq> [] \<and> list_all is_digit s \<and> (s = ''0'' \<or> hd s \<noteq> CHR ''0'')
     \<and> decimal s \<le> 4294967294"

text \<open>
  The assignment \<open>o[k] = v\<close> of a string to a property of an object that was created as
  \<open>{}\<close>. The name \<open>__proto__\<close> is the accessor that the object inherits: its setter ignores
  a value that is not an object, so the assignment changes nothing and creates no
  property. An existing property is overwritten where it stands. A new array index
  is placed among the array indices, by its number; any other new name comes last.
\<close>

fun insert_index :: "string \<Rightarrow> string \<Rightarrow> js_object \<Rightarrow> js_object" where
  "insert_index k v [] = [(k, v)]"
| "insert_index k v (p # ps) =
     (if is_array_index (fst p) \<and> decimal (fst p) < decimal k
      then p # insert_index k v ps
      else (k, v) # p # ps)"

definition obj_assign :: "js_object \<Rightarrow> string \<Rightarrow> string \<Rightarrow> js_object" where
  "obj_assign obj k v =
     (if k = ''__proto__'' then obj
      else if is_array_index k \<and> map_of obj k = None then insert_index k v obj
      else AList.update k v obj)"

text \<open>
  The enumeration order, as far as the array indices go: an array index is only ever
  preceded by an array index that is not greater.
\<close>

fun index_keys_first :: "string list \<Rightarrow> bool" where
  "index_keys_first (a # b # ks) =
     ((if is_array_index b then is_array_index a \<and> decimal a \<le> decimal b else True)
      \<and> index_keys_first (b # ks))"
| "index_keys_first ks = True"

subsection \<open>What the file imports\<close>

text \<open>
  \<open>UglifyJS.minify\<close> returns an object, of which the program reads the property \<open>code\<close>.
  The minifier reports a failure in the property \<open>error\<close> of that object (the uglify-js 3
  interface, the one that takes the source text as its argument); a call that throws is
  \<open>Inl\<close>. The postcss pipeline is taken with its outcome: the stylesheet text the promise
  resolves to, or the error it rejects with.
\<close>

type_synonym js_error = string

record minify_output =
  out_code :: js_value
  out_error :: js_value

record externals =
  join :: "string \<Rightarrow> string \<Rightarrow> string"
  dirname :: string
  process_env :: "string \<Rightarrow> string option"
  UglifyJS_minify :: "string \<Rightarrow> js_error + minify_output"
  cssnano :: "string \<Rightarrow> js_error + string"
  dependencies :: js_object

text \<open>The options. \<open>None\<close> for the whole argument is a call without argument.\<close>

record env =
  env_environment :: js_value
  env_watch :: js_value
  env_buildTarget :: js_value

subsection \<open>Copy instructions and the configuration\<close>

text \<open>
  A pattern of the copy plugin. A property that the object literal does not have is
  \<open>None\<close>. A content transform receives the file's content and returns the new content
  or throws; the buffer is identified with its text.
\<close>

record copy =
  copy_from :: string
  copy_to :: string
  copy_test :: "string option"
  copy_flatten :: "bool option"
  copy_transform :: "(string \<Rightarrow> js_error + js_value) option"
  copy_transformPath :: "(string \<Rightarrow> string \<Rightarrow> string) option"

datatype plugin =
    DefinePlugin "(string \<times> nat) list"
  | LibraryExportDefaultPlugin "string list"
  | CustomTemplatedPathPlugin
  | DependencyExtractionPlugin bool
  | CopyWebpackPlugin "copy list"
  | LiveReloadPlugin "string + nat"

text \<open>
  The configuration object, without the properties that are literal constants of the
  file (\<open>output.library\<close>, \<open>resolve\<close>, \<open>module.rules\<close>, \<open>stats\<close>). \<open>None\<close> is a property
  that was never set or was deleted.
\<close>

record config =
  config_mode :: js_value
  config_entry :: js_object
  config_output_filename :: string
  config_output_path :: string
  config_devtool :: "string option"
  config_optimization_minimize :: "bool option"
  config_plugins :: "plugin list"
  config_watch :: js_value

subsection \<open>camelCaseDash (lines 37 to 42)\<close>

text \<open>
  \<open>string.replace( /-([a-z])/g, ( match, letter ) => letter.toUpperCase() )\<close>: the
  global replacement scans from the left; where a dash is followed by a letter of
  \<open>[a-z]\<close> the two characters become the upper-cased letter and the scan goes on behind
  them, otherwise the character is kept and the scan goes on with the next one.
\<close>

fun camelCaseDash :: "string \<Rightarrow> string" where
  "camelCaseDash (c # d # cs) =
     (if c = CHR ''-'' \<and> is_lower d
      then toUpperCase d # camelCaseDash cs
      else c # camelCaseDash (d # cs))"
| "camelCaseDash cs = cs"

subsection \<open>mapVendorCopies (lines 52 to 57)\<close>

definition baseDir :: "externals \<Rightarrow> string" where
  "baseDir x = join x (dirname x) ''../../''"

definition mapVendorCopies :: "externals \<Rightarrow> js_object \<Rightarrow> string \<Rightarrow> copy list" where
  "mapVendorCopies x vendors buildTarget =
     map (\<lambda>filename.
       \<lparr> copy_from = join x (baseDir x) (''node_modules/'' @ js_toString (obj_get vendors filename)),
         copy_to = join x (baseDir x) (buildTarget @ ''/js/dist/vendor/'' @ filename),
         copy_test = None, copy_flatten = None,
         copy_transform = None, copy_transformPath = None \<rparr>)
       (Object_keys vendors)"

subsection \<open>The exported function (lines 59 to 274)\<close>

text \<open>The default value of the parameter stands in for an absent argument only.\<close>

definition default_env :: env where
  "default_env =
     \<lparr> env_environment = JStr ''production'', env_watch = JBool False,
       env_buildTarget = JBool False \<rparr>"

definition env_of :: "env option \<Rightarrow> env" where
  "env_of arg = (case arg of None \<Rightarrow> default_env | Some env \<Rightarrow> env)"

definition mode :: "env \<Rightarrow> js_value" where
  "mode env = env_environment env"

definition suffix_min :: "env \<Rightarrow> string" where
  "suffix_min env = (if mode env = JStr ''production'' then ''.min'' else '''')"

definition buildTarget :: "env \<Rightarrow> string" where
  "buildTarget env =
     js_toString
       (if truthy (env_buildTarget env) then env_buildTarget env
        else if mode env = JStr ''production'' then JStr ''build'' else JStr ''src'')
     @ ''/wp-includes''"

definition WORDPRESS_NAMESPACE :: string where
  "WORDPRESS_NAMESPACE = ''@wordpress/''"

definition packages :: "externals \<Rightarrow> string list" where
  "packages x =
     map (\<lambda>packageName. replace_str packageName WORDPRESS_NAMESPACE '''')
       (filter (\<lambda>packageName. startsWith packageName WORDPRESS_NAMESPACE)
         (Object_keys (dependencies x)))"

definition vendors :: js_object where
  "vendors =
     [(''lodash.js'', ''lodash/lodash.js''),
      (''wp-polyfill.js'', ''@babel/polyfill/dist/polyfill.js''),
      (''wp-polyfill-fetch.js'', ''whatwg-fetch/dist/fetch.umd.js''),
      (''wp-polyfill-element-closest.js'', ''element-closest/element-closest.js''),
      (''wp-polyfill-node-contains.js'',
         ''polyfill-library/polyfills/Node/prototype/contains/polyfill.js''),
      (''wp-polyfill-formdata.js'', ''formdata-polyfill/FormData.js''),
      (''moment.js'', ''moment/moment.js''),
      (''react.js'', ''react/umd/react.development.js''),
      (''react-dom.js'', ''react-dom/umd/react-dom.development.js'')]"

definition minifiedVendors :: js_object where
  "minifiedVendors =
     [(''lodash.min.js'', ''lodash/lodash.min.js''),
      (''wp-polyfill.min.js'', ''@babel/polyfill/dist/polyfill.min.js''),
      (''wp-polyfill-formdata.min.js'', ''formdata-polyfill/formdata.min.js''),
      (''moment.min.js'', ''moment/min/moment.min.js''),
      (''react.min.js'', ''react/umd/react.production.min.js''),
      (''react-dom.min.js'', ''react-dom/umd/react-dom.production.min.js'')]"

definition minifyVendors :: js_object where
  "minifyVendors =
     [(''wp-polyfill-fetch.min.js'', ''whatwg-fetch/dist/fetch.umd.js''),
      (''wp-polyfill-element-closest.min.js'', ''element-closest/element-closest.js''),
      (''wp-polyfill-node-contains.min.js'',
         ''polyfill-library/polyfills/Node/prototype/contains/polyfill.js'')]"

definition blockNames :: "string list" where
  "blockNames =
     [''archives'', ''block'', ''calendar'', ''categories'', ''latest-comments'',
      ''latest-posts'', ''navigation'', ''rss'', ''search'', ''shortcode'', ''tag-cloud'']"

text \<open>
  The object literal of lines 110 to 116: its own property, then the properties of the
  object that the \<open>reduce\<close> built, which the spread defines in their order.
\<close>

definition phpFiles :: js_object where
  "phpFiles =
     fold (\<lambda>(k, v) obj. AList.update k v obj)
       (fold (\<lambda>blockName files.
            obj_assign files (''block-library/src/'' @ blockName @ ''/index.php'')
              (''wp-includes/blocks/'' @ blockName @ ''.php''))
          blockNames [])
       [(''block-serialization-default-parser/parser.php'',
         ''wp-includes/class-wp-block-parser.php'')]"

text \<open>
  The pattern of \<open>test\<close> is built from a template literal, where \<open>\/\<close> and \<open>\.\<close> are the
  characters \<open>/\<close> and \<open>.\<close>; the field holds the resulting source text of the pattern.
\<close>

definition blockMetadataCopies :: "externals \<Rightarrow> env \<Rightarrow> copy" where
  "blockMetadataCopies x env =
     \<lparr> copy_from = join x (baseDir x)
         (''node_modules/@wordpress/block-library/src/+('' @ array_join blockNames ''|''
            @ '')/block.json''),
       copy_to = join x (baseDir x) (buildTarget env @ ''/blocks/[1]/block.json''),
       copy_test = Some ''/([^/]+)/block.json$'', copy_flatten = None,
       copy_transform = None, copy_transformPath = None \<rparr>"

definition developmentCopies :: "externals \<Rightarrow> env \<Rightarrow> copy list" where
  "developmentCopies x env = mapVendorCopies x vendors (buildTarget env)"

definition minifiedCopies :: "externals \<Rightarrow> env \<Rightarrow> copy list" where
  "minifiedCopies x env = mapVendorCopies x minifiedVendors (buildTarget env)"

text \<open>
  The transform of lines 128 to 130: \<open>UglifyJS.minify( content.toString() ).code\<close>. There
  is no \<open>try\<close> around the call and no test of the result.
\<close>

definition minify_transform :: "externals \<Rightarrow> string \<Rightarrow> js_error + js_value" where
  "minify_transform x content =
     (case UglifyJS_minify x content of
        Inl e \<Rightarrow> Inl e
      | Inr result \<Rightarrow> Inr (out_code result))"

definition minifyCopies :: "externals \<Rightarrow> env \<Rightarrow> copy list" where
  "minifyCopies x env =
     map (\<lambda>copyCommand. copyCommand \<lparr> copy_transform := Some (minify_transform x) \<rparr>)
       (mapVendorCopies x minifyVendors (buildTarget env))"

definition vendorCopies :: "externals \<Rightarrow> env \<Rightarrow> copy list" where
  "vendorCopies x env =
     (if mode env = JStr ''development'' then developmentCopies x env
      else minifiedCopies x env @ minifyCopies x env)"

text \<open>
  The two closures of a stylesheet copy (lines 140 to 159). \<open>cssCopies\<close> and \<open>entry\<close> take
  the list they run over, the local \<open>packages\<close>, as an argument.
\<close>

definition css_transform :: "externals \<Rightarrow> env \<Rightarrow> string \<Rightarrow> js_error + js_value" where
  "css_transform x env content =
     (if mode env = JStr ''production''
      then (case cssnano x content of Inl e \<Rightarrow> Inl e | Inr css \<Rightarrow> Inr (JStr css))
      else Inr (JStr content))"

definition css_transformPath :: "env \<Rightarrow> string \<Rightarrow> string \<Rightarrow> string" where
  "css_transformPath env targetPath sourcePath =
     (if mode env = JStr ''production'' then replace_css_min targetPath else targetPath)"

definition cssCopies :: "externals \<Rightarrow> env \<Rightarrow> string list \<Rightarrow> copy list" where
  "cssCopies x env pkgs =
     map (\<lambda>packageName.
       \<lparr> copy_from = join x (baseDir x)
           (''node_modules/@wordpress/'' @ packageName @ ''/build-style/*.css''),
         copy_to = join x (baseDir x) (buildTarget env @ ''/css/dist/'' @ packageName @ ''/''),
         copy_test = None, copy_flatten = Some True,
         copy_transform = Some (css_transform x env),
         copy_transformPath = Some (css_transformPath env) \<rparr>)
       pkgs"

definition phpCopies :: "externals \<Rightarrow> copy list" where
  "phpCopies x =
     map (\<lambda>filename.
       \<lparr> copy_from = join x (baseDir x) (''node_modules/@wordpress/'' @ filename),
         copy_to = join x (baseDir x) (''src/'' @ js_toString (obj_get phpFiles filename)),
         copy_test = None, copy_flatten = None,
         copy_transform = None, copy_transformPath = None \<rparr>)
       (Object_keys phpFiles)"

definition entry :: "externals \<Rightarrow> string list \<Rightarrow> js_object" where
  "entry x pkgs =
     fold (\<lambda>packageName memo.
         obj_assign memo (camelCaseDash packageName)
           (join x (baseDir x) (''node_modules/@wordpress/'' @ packageName)))
       pkgs []"

definition initial_config :: "externals \<Rightarrow> env \<Rightarrow> config" where
  "initial_config x env =
     \<lparr> config_mode = mode env,
       config_entry = entry x (packages x),
       config_output_filename = ''[basename]'' @ suffix_min env @ ''.js'',
       config_output_path = join x (baseDir x) (buildTarget env @ ''/js/dist''),
       config_devtool = None,
       config_optimization_minimize = None,
       config_plugins =
         [DefinePlugin [(''process.env.GUTENBERG_PHASE'', 1)],
          LibraryExportDefaultPlugin
            (map camelCaseDash
              [''api-fetch'', ''deprecated'', ''dom-ready'', ''redux-routine'', ''token-list'',
               ''server-side-render'', ''shortcode'']),
          CustomTemplatedPathPlugin,
          DependencyExtractionPlugin True,
          CopyWebpackPlugin
            (vendorCopies x env @ cssCopies x env (packages x) @ phpCopies x
               @ [blockMetadataCopies x env])],
       config_watch = env_watch env \<rparr>"

text \<open>
  \<open>process.env.NAME || fallback\<close>: a variable of the process environment is a string or
  absent, and the empty string is falsy as the absent variable is.
\<close>

definition env_var_or :: "string option \<Rightarrow> 'a \<Rightarrow> string + 'a" where
  "env_var_or v fallback =
     (case v of
        None \<Rightarrow> Inr fallback
      | Some s \<Rightarrow> if s \<noteq> [] then Inl s else Inr fallback)"

text \<open>The three conditional statements of lines 257 to 271, in their order.\<close>

definition set_devtool :: "externals \<Rightarrow> config \<Rightarrow> config" where
  "set_devtool x config =
     (if config_mode config \<noteq> JStr ''production''
      then config \<lparr> config_devtool :=
             Some (case env_var_or (process_env x ''SOURCEMAP'') ''source-map'' of
                     Inl s \<Rightarrow> s | Inr s \<Rightarrow> s) \<rparr>
      else config)"

definition build_in_development :: "env \<Rightarrow> config \<Rightarrow> config" where
  "build_in_development env config =
     (if mode env = JStr ''development'' \<and> env_buildTarget env = JStr ''build/''
      then config \<lparr> config_devtool := None, config_mode := JStr ''production'',
             config_optimization_minimize := Some False \<rparr>
      else config)"

definition add_live_reload :: "externals \<Rightarrow> config \<Rightarrow> config" where
  "add_live_reload x config =
     (if config_mode config = JStr ''development''
      then config \<lparr> config_plugins := config_plugins config @
             [LiveReloadPlugin
                (env_var_or (process_env x ''WORDPRESS_LIVE_RELOAD_PORT'') 35729)] \<rparr>
      else config)"

definition module_exports :: "externals \<Rightarrow> env option \<Rightarrow> config" where
  "module_exports x arg =
     (let env = env_of arg
      in add_live_reload x (build_in_development env (set_devtool x (initial_config x env))))"

subsection \<open>The camel-case rule as the specification words it\<close>

text \<open>
  The specification describes the result character by character: a dash that is
  followed by a lowercase letter disappears, a lowercase letter that follows such a dash
  is upper-cased, and every other character stays. \<open>camelCaseDash_spec\<close> is this reading,
  by position; it is compared with the scan of the source below.
\<close>

definition dash_lower_at :: "string \<Rightarrow> nat \<Rightarrow> bool" where
  "dash_lower_at s i \<longleftrightarrow> Suc i < length s \<and> s ! i = CHR ''-'' \<and> is_lower (s ! Suc i)"

definition spec_char :: "string \<Rightarrow> nat \<Rightarrow> string" where
  "spec_char s i =
     (if dash_lower_at s i then []
      else if 0 < i \<and> dash_lower_at s (i - 1) then [toUpperCase (s ! i)]
      else [s ! i])"

definition camelCaseDash_spec :: "string \<Rightarrow> string" where
  "camelCaseDash_spec s = concat (map (spec_char s) [0..<length s])"

subsection \<open>The build target and the minifier's failures as the specification words them\<close>

text \<open>
  The specification gives each option its own default: an absent environment is
  \<open>production\<close>, an absent override is \<open>false\<close>, and an override that is given is used.
  \<open>spec_buildTarget\<close> is this reading, on the two options (\<open>Undefined\<close> when absent).
\<close>

definition spec_buildTarget :: "js_value \<Rightarrow> js_value \<Rightarrow> string" where
  "spec_buildTarget environment override =
     (let environment' = (if environment = Undefined then JStr ''production'' else environment);
          override' = (if override = Undefined then JBool False else override)
      in (if override' \<noteq> JBool False then js_toString override'
          else if environment' = JStr ''production'' then ''build'' else ''src'')
         @ ''/wp-includes'')"

text \<open>
  The minifier fails on an input when the call throws or when the result carries an
  error; the failure propagates when the transform throws.
\<close>

definition minifier_fails :: "externals \<Rightarrow> string \<Rightarrow> bool" where
  "minifier_fails x content =
     (case UglifyJS_minify x content of
        Inl e \<Rightarrow> True
      | Inr result \<Rightarrow> out_error result \<noteq> Undefined)"

definition failure_propagates :: "externals \<Rightarrow> string \<Rightarrow> bool" where
  "failure_propagates x content = isl (minify_transform x content)"

subsection \<open>An instance of the imports, for evaluating examples\<close>

text \<open>
  \<open>posix_join\<close> is \<open>path.join\<close> of Node on two arguments, on POSIX: the non-empty arguments
  are put together with a slash and the result is normalised (empty and \<open>.\<close> segments
  dropped, \<open>..\<close> resolved against the segment before it, a trailing slash kept). It is
  used in examples only; no general theorem depends on it.
\<close>

fun split_slash :: "string \<Rightarrow> string list" where
  "split_slash [] = [[]]"
| "split_slash (c # cs) =
     (if c = CHR ''/'' then [] # split_slash cs
      else (case split_slash cs of [] \<Rightarrow> [[c]] | seg # segs \<Rightarrow> (c # seg) # segs))"

fun normalize_segments :: "bool \<Rightarrow> string list \<Rightarrow> string list \<Rightarrow> string list" where
  "normalize_segments allowAboveRoot res [] = rev res"
| "normalize_segments allowAboveRoot res (seg # segs) =
     (if seg = [] \<or> seg = ''.'' then normalize_segments allowAboveRoot res segs
      else if seg = ''..'' then
        (case res of
           [] \<Rightarrow> normalize_segments allowAboveRoot (if allowAboveRoot then [''..''] else []) segs
         | r # rs \<Rightarrow>
             if r = ''..''
             then normalize_segments allowAboveRoot
                    (if allowAboveRoot then ''..'' # res else res) segs
             else normalize_segments allowAboveRoot rs segs)
      else normalize_segments allowAboveRoot (seg # res) segs)"

definition posix_normalize :: "string \<Rightarrow> string" where
  "posix_normalize path =
     (if path = [] then ''.''
      else
        let isAbsolute = (hd path = CHR ''/'');
            trailingSeparator = (last path = CHR ''/'');
            p = array_join (normalize_segments (\<not> isAbsolute) [] (split_slash path)) ''/''
        in if p = [] then (if isAbsolute then ''/'' else if trailingSeparator then ''./'' else ''.'')
           else (if isAbsolute then ''/'' else []) @ p @ (if trailingSeparator then ''/'' else []))"

definition posix_join :: "string \<Rightarrow> string \<Rightarrow> string" where
  "posix_join a b =
     (if a = [] \<and> b = [] then ''.''
      else posix_normalize (if a = [] then b else if b = [] then a else a @ ''/'' @ b))"

text \<open>
  A minifier with the interface of uglify-js 3: it does not throw; on the text it
  cannot parse, the result has an error and no code.
\<close>

definition sample_minify :: "string \<Rightarrow> js_error + minify_output" where
  "sample_minify text =
     (if text = ''if (0) else''
      then Inr \<lparr> out_code = Undefined,
                 out_error = JStr ''SyntaxError: Unexpected token: keyword (else)'' \<rparr>
      else Inr \<lparr> out_code = JStr (filter (\<lambda>c. c \<noteq> CHR '' '') text), out_error = Undefined \<rparr>)"

definition sample_externals :: externals where
  "sample_externals =
     \<lparr> join = posix_join,
       dirname = ''/repo/tools/webpack'',
       process_env = (\<lambda>name. None),
       UglifyJS_minify = sample_minify,
       cssnano = (\<lambda>css. Inr (filter (\<lambda>c. c \<noteq> CHR '' '') css)),
       dependencies =
         [(''@wordpress/a11y'', ''2.5.1''), (''lodash'', ''4.17.15''),
          (''@wordpress/api-fetch'', ''5.2.5''), (''wordpress/x'', ''1.0.0'')] \<rparr>"

text \<open>An options object for a development build without override.\<close>

definition development_env :: env where
  "development_env =
     \<lparr> env_environment = JStr ''development'', env_watch = JBool False,
       env_buildTarget = JBool False \<rparr>"

subsection \<open>Module root paths and dash-case names\<close>

text \<open>
  The module root path of a package is the value that line 172 stores for it.
  \<open>dashCase\<close> reads a camel-cased name back: an upper-case letter stands for a dash and
  the lower-case letter. It is the inverse of camelCaseDash on names without upper-case
  letters, which is how the proofs show that such names never collide.
\<close>

definition module_root :: "externals \<Rightarrow> string \<Rightarrow> string" where
  "module_root x packageName = join x (baseDir x) (''node_modules/@wordpress/'' @ packageName)"

definition is_upper :: "char \<Rightarrow> bool" where
  "is_upper c \<longleftrightarrow> 65 \<le> (of_char c :: nat) \<and> (of_char c :: nat) \<le> 90"

fun dashCase :: "string \<Rightarrow> string" where
  "dashCase [] = []"
| "dashCase (c # cs) =
     (if is_upper c then CHR ''-'' # char_of ((of_char c :: nat) + 32) # dashCase cs
      else c # dashCase cs)"

section \<open>Properties of camelCaseDash\<close>

lemma not_lower_dash: "\<not> is_lower (CHR ''-'')"
  by (simp add: is_lower_def)

lemma not_lower_upper: "\<not> is_lower (toUpperCase c)"
  by (auto simp: is_lower_def toUpperCase_def)

lemma not_lower_digit: "is_digit c \<Longrightarrow> \<not> is_lower c"
  by (simp add: is_lower_def is_digit_def)

lemma digit_not_dash: "is_digit c \<Longrightarrow> c \<noteq> CHR ''-''"
  by (auto simp: is_digit_def)

lemma upper_not_dash: "is_lower c \<Longrightarrow> toUpperCase c \<noteq> CHR ''-''"
proof
  assume l: "is_lower c" and e: "toUpperCase c = CHR ''-''"
  from e have "(of_char (toUpperCase c) :: nat) = of_char (CHR ''-'')" by simp
  with l have "((of_char c :: nat) - 32) mod 256 = 45"
    by (simp add: toUpperCase_def)
  moreover from l have "97 \<le> (of_char c :: nat)" and "(of_char c :: nat) \<le> 122"
    by (simp_all add: is_lower_def)
  ultimately show False by simp
qed

text \<open>A character is kept unless it is a dash in front of a lowercase letter.\<close>

lemma camelCaseDash_keep:
  "\<not> (c = CHR ''-'' \<and> cs \<noteq> [] \<and> is_lower (hd cs)) \<Longrightarrow>
   camelCaseDash (c # cs) = c # camelCaseDash cs"
  by (cases cs) auto

text \<open>
  The scan of a concatenation is the concatenation of the scans, unless the cut
  separates a dash from its lowercase letter.
\<close>

lemma camelCaseDash_append:
  "\<not> (s \<noteq> [] \<and> last s = CHR ''-'' \<and> t \<noteq> [] \<and> is_lower (hd t)) \<Longrightarrow>
   camelCaseDash (s @ t) = camelCaseDash s @ camelCaseDash t"
proof (induction s rule: camelCaseDash.induct)
  case (1 c d cs)
  show ?case
  proof (cases "c = CHR ''-'' \<and> is_lower d")
    case True
    have "\<not> (cs \<noteq> [] \<and> last cs = CHR ''-'' \<and> t \<noteq> [] \<and> is_lower (hd t))"
      using "1.prems" by auto
    from "1.IH"(1) [OF True this] True show ?thesis by simp
  next
    case False
    have "\<not> (d # cs \<noteq> [] \<and> last (d # cs) = CHR ''-'' \<and> t \<noteq> [] \<and> is_lower (hd t))"
      using "1.prems" by auto
    from "1.IH"(2) [OF False this] False show ?thesis by auto
  qed
qed (simp_all add: camelCaseDash_keep)

lemma camelCaseDash_no_dash: "CHR ''-'' \<notin> set s \<Longrightarrow> camelCaseDash s = s"
  by (induction s rule: camelCaseDash.induct) auto

text \<open>The scan, started at position \<open>i\<close>, against the reading by position.\<close>

lemma spec_suffix:
  "i \<le> length s \<Longrightarrow> \<not> (0 < i \<and> dash_lower_at s (i - 1)) \<Longrightarrow>
   concat (map (spec_char s) [i..<length s]) = camelCaseDash (drop i s)"
proof (induction "length s - i" arbitrary: i rule: less_induct)
  case less
  show ?case
  proof (cases "i = length s")
    case True
    then show ?thesis by simp
  next
    case False
    with less.prems have lt: "i < length s" by simp
    have dr: "drop i s = s ! i # drop (Suc i) s"
      using lt by (simp add: Cons_nth_drop_Suc)
    have up: "[i..<length s] = i # [Suc i..<length s]"
      using lt by (simp add: upt_conv_Cons)
    show ?thesis
    proof (cases "dash_lower_at s i")
      case True
      then have lt2: "Suc i < length s" and d: "s ! i = CHR ''-''"
        and l: "is_lower (s ! Suc i)"
        by (simp_all add: dash_lower_at_def)
      have dr2: "drop (Suc i) s = s ! Suc i # drop (Suc (Suc i)) s"
        using lt2 by (simp add: Cons_nth_drop_Suc)
      have up2: "[Suc i..<length s] = Suc i # [Suc (Suc i)..<length s]"
        using lt2 by (simp add: upt_conv_Cons)
      have nd: "\<not> dash_lower_at s (Suc i)"
        using l not_lower_dash by (auto simp: dash_lower_at_def)
      have ih: "concat (map (spec_char s) [Suc (Suc i)..<length s]) =
          camelCaseDash (drop (Suc (Suc i)) s)"
        using less.hyps [of "Suc (Suc i)"] lt2 nd by simp
      have c1: "spec_char s i = []"
        using True by (simp add: spec_char_def)
      have c2: "spec_char s (Suc i) = [toUpperCase (s ! Suc i)]"
        using True nd by (simp add: spec_char_def)
      have "camelCaseDash (drop i s) =
          toUpperCase (s ! Suc i) # camelCaseDash (drop (Suc (Suc i)) s)"
        using d l by (simp add: dr dr2)
      then show ?thesis
        by (simp add: up up2 c1 c2 ih)
    next
      case False
      have c1: "spec_char s i = [s ! i]"
        using False less.prems(2) by (auto simp: spec_char_def)
      have ih: "concat (map (spec_char s) [Suc i..<length s]) = camelCaseDash (drop (Suc i) s)"
        using less.hyps [of "Suc i"] lt False by simp
      have "\<not> (s ! i = CHR ''-'' \<and> drop (Suc i) s \<noteq> [] \<and> is_lower (hd (drop (Suc i) s)))"
        using False by (auto simp: dash_lower_at_def hd_drop_conv_nth)
      then have "camelCaseDash (drop i s) = s ! i # camelCaseDash (drop (Suc i) s)"
        by (simp add: dr camelCaseDash_keep)
      then show ?thesis
        by (simp add: up c1 ih)
    qed
  qed
qed

lemma camelCaseDash_eq_spec: "camelCaseDash s = camelCaseDash_spec s"
  using spec_suffix [of 0 s] by (simp add: camelCaseDash_spec_def)

lemma camelCaseDash_examples:
  "camelCaseDash ''api-fetch'' = ''apiFetch''"
  "camelCaseDash ''a11y'' = ''a11y''"
  "camelCaseDash ''token-list'' = ''tokenList''"
  by code_simp+

text \<open>
  C1. For every string, camelCaseDash replaces each dash that is followed by a lowercase
  ASCII letter, together with the letter, by the upper-cased letter, and leaves every other
  character as it is (the result is the reading by position, \<open>camelCaseDash_spec\<close>). The
  three examples of the specification evaluate as stated; a string without a dash is
  unchanged, and behind a digit the next character is copied as it is, so a letter
  that follows a digit is not upper-cased; a trailing dash stays, and so does a dash in
  front of anything but a lowercase letter.
\<close>

theorem camelCaseDash_rule:
  "camelCaseDash s = camelCaseDash_spec s
   \<and> camelCaseDash ''api-fetch'' = ''apiFetch''
   \<and> camelCaseDash ''a11y'' = ''a11y''
   \<and> camelCaseDash ''token-list'' = ''tokenList''
   \<and> (CHR ''-'' \<notin> set s \<longrightarrow> camelCaseDash s = s)
   \<and> (is_digit c \<and> l \<noteq> CHR ''-'' \<longrightarrow>
        camelCaseDash (s @ c # l # t) = camelCaseDash s @ c # l # camelCaseDash t)
   \<and> camelCaseDash (s @ ''-'') = camelCaseDash s @ ''-''
   \<and> (\<not> is_lower d \<longrightarrow>
        camelCaseDash (s @ CHR ''-'' # d # t) = camelCaseDash s @ CHR ''-'' # camelCaseDash (d # t))"
proof -
  have digit: "camelCaseDash (s @ c # l # t) = camelCaseDash s @ c # l # camelCaseDash t"
    if c: "is_digit c" and l: "l \<noteq> CHR ''-''"
  proof -
    have "camelCaseDash (s @ c # l # t) = camelCaseDash s @ camelCaseDash (c # l # t)"
      using not_lower_digit [OF c] by (intro camelCaseDash_append) simp
    moreover have "camelCaseDash (c # l # t) = c # camelCaseDash (l # t)"
      using digit_not_dash [OF c] by simp
    moreover have "camelCaseDash (l # t) = l # camelCaseDash t"
      using l by (intro camelCaseDash_keep) simp
    ultimately show ?thesis by simp
  qed
  have trailing: "camelCaseDash (s @ ''-'') = camelCaseDash s @ ''-''"
    using camelCaseDash_append [of s "''-''"] by (simp add: not_lower_dash)
  have kept: "camelCaseDash (s @ CHR ''-'' # d # t) =
      camelCaseDash s @ CHR ''-'' # camelCaseDash (d # t)"
    if d: "\<not> is_lower d"
  proof -
    have "camelCaseDash (s @ CHR ''-'' # d # t) = camelCaseDash s @ camelCaseDash (CHR ''-'' # d # t)"
      by (intro camelCaseDash_append) (simp add: not_lower_dash)
    then show ?thesis using d by simp
  qed
  show ?thesis
    using camelCaseDash_eq_spec [of s] camelCaseDash_examples camelCaseDash_no_dash [of s]
      digit trailing kept
    by blast
qed

theorem camelCaseDash_rule_witness:
  "CHR ''-'' \<notin> set ''a11y''
   \<and> is_digit (CHR ''1'') \<and> CHR ''y'' \<noteq> CHR ''-''
   \<and> \<not> is_lower (CHR ''B'')
   \<and> camelCaseDash ''a11y'' = camelCaseDash_spec ''a11y''
   \<and> camelCaseDash (''a1'' @ CHR ''1'' # CHR ''y'' # ''-z'') = ''a11yZ''
   \<and> camelCaseDash (''a11y'' @ ''-'') = ''a11y-''
   \<and> camelCaseDash (''a11y'' @ CHR ''-'' # CHR ''B'' # ''-c'') = ''a11y-BC''"
proof -
  have h: "CHR ''-'' \<notin> set ''a11y''" "is_digit (CHR ''1'')" "CHR ''y'' \<noteq> CHR ''-''"
    "\<not> is_lower (CHR ''B'')"
    by (simp_all add: is_digit_def is_lower_def)
  have v: "camelCaseDash ''a1'' = ''a1''" "camelCaseDash ''-z'' = ''Z''"
    "camelCaseDash ''a11y'' = ''a11y''" "camelCaseDash (CHR ''B'' # ''-c'') = ''BC''"
    by code_simp+
  show ?thesis
    using camelCaseDash_rule [of "''a11y''" "CHR ''1''" "CHR ''y''" "''-z''" "CHR ''B''"]
      camelCaseDash_rule [of "''a1''" "CHR ''1''" "CHR ''y''" "''-z''" "CHR ''B''"]
      camelCaseDash_rule [of "''a11y''" "CHR ''1''" "CHR ''y''" "''-c''" "CHR ''B''"]
      h v
    by simp
qed

text \<open>The head of a scan that started on a character outside \<open>[a-z]\<close> is outside it too.\<close>

lemma hd_camelCaseDash_not_lower:
  "\<not> is_lower c \<Longrightarrow> camelCaseDash (c # cs) = y # ys \<Longrightarrow> \<not> is_lower y"
  by (cases cs) (auto simp: not_lower_upper split: if_splits)

text \<open>
  C2. camelCaseDash is idempotent on every string: a second pass finds no dash
  in front of a lowercase letter, since every dash of the result stood in front of a
  character outside \<open>[a-z]\<close>, whose image is outside \<open>[a-z]\<close> as well.
\<close>

theorem camelCaseDash_idempotent: "camelCaseDash (camelCaseDash s) = camelCaseDash s"
proof (induction s rule: camelCaseDash.induct)
  case (1 c d cs)
  show ?case
  proof (cases "c = CHR ''-'' \<and> is_lower d")
    case True
    have "camelCaseDash (toUpperCase d # camelCaseDash cs) =
        toUpperCase d # camelCaseDash (camelCaseDash cs)"
      using True by (intro camelCaseDash_keep) (simp add: upper_not_dash)
    moreover have "camelCaseDash (c # d # cs) = toUpperCase d # camelCaseDash cs"
      using True by simp
    ultimately show ?thesis using "1.IH"(1) [OF True] by simp
  next
    case False
    have "\<not> (c = CHR ''-'' \<and> camelCaseDash (d # cs) \<noteq> [] \<and>
        is_lower (hd (camelCaseDash (d # cs))))"
    proof
      assume a: "c = CHR ''-'' \<and> camelCaseDash (d # cs) \<noteq> [] \<and>
        is_lower (hd (camelCaseDash (d # cs)))"
      with False have nl: "\<not> is_lower d" by simp
      from a obtain y ys where e: "camelCaseDash (d # cs) = y # ys"
        by (cases "camelCaseDash (d # cs)") auto
      from hd_camelCaseDash_not_lower [OF nl e] a e show False by simp
    qed
    then have "camelCaseDash (c # camelCaseDash (d # cs)) =
        c # camelCaseDash (camelCaseDash (d # cs))"
      by (rule camelCaseDash_keep)
    moreover have "camelCaseDash (c # d # cs) = c # camelCaseDash (d # cs)"
      using False by auto
    ultimately show ?thesis using "1.IH"(2) [OF False] by simp
  qed
qed simp_all

section \<open>The package list\<close>

lemma replace_str_prefix:
  "prefix pat s \<Longrightarrow> replace_str s pat rep = rep @ drop (length pat) s"
  by (cases s) auto

lemma packages_eq:
  "packages x =
     map (drop (length WORDPRESS_NAMESPACE))
       (filter (\<lambda>k. startsWith k WORDPRESS_NAMESPACE) (Object_keys (dependencies x)))"
  unfolding packages_def
  by (rule map_cong [OF refl]) (simp add: startsWith_def replace_str_prefix)

lemma restore_prefix:
  "startsWith k WORDPRESS_NAMESPACE \<Longrightarrow>
   WORDPRESS_NAMESPACE @ drop (length WORDPRESS_NAMESPACE) k = k"
  by (auto simp: startsWith_def prefix_def)

text \<open>
  C3. For every dependency mapping, the package list is the list of the dependency names
  that start with the exact prefix \<open>@wordpress/\<close>, in the order of the mapping and each
  without the prefix: putting the prefix back gives exactly the names that were kept. A
  name is in the list if and only if the prefixed name is a dependency. When no name
  matches, the result is the empty list; the function has no error result.
\<close>

theorem packages_prefix_filter:
  "map (\<lambda>name. WORDPRESS_NAMESPACE @ name) (packages x) =
     filter (\<lambda>k. startsWith k WORDPRESS_NAMESPACE) (Object_keys (dependencies x))
   \<and> (name \<in> set (packages x) \<longleftrightarrow>
        WORDPRESS_NAMESPACE @ name \<in> set (Object_keys (dependencies x)))
   \<and> (startsWith k WORDPRESS_NAMESPACE \<longleftrightarrow> take 11 k = ''@wordpress/'')
   \<and> ((\<forall>k \<in> set (Object_keys (dependencies x)). \<not> startsWith k WORDPRESS_NAMESPACE) \<longrightarrow>
        packages x = [])"
proof -
  let ?keys = "Object_keys (dependencies x)"
  let ?kept = "filter (\<lambda>k. startsWith k WORDPRESS_NAMESPACE) ?keys"
  have a: "map (\<lambda>name. WORDPRESS_NAMESPACE @ name) (packages x) = ?kept"
  proof -
    have "map (\<lambda>name. WORDPRESS_NAMESPACE @ name) (packages x) =
        map (\<lambda>k. WORDPRESS_NAMESPACE @ drop (length WORDPRESS_NAMESPACE) k) ?kept"
      by (simp add: packages_eq comp_def)
    also have "\<dots> = map (\<lambda>k. k) ?kept"
      by (rule map_cong [OF refl]) (simp add: restore_prefix)
    finally show ?thesis by simp
  qed
  have b: "name \<in> set (packages x) \<longleftrightarrow> WORDPRESS_NAMESPACE @ name \<in> set ?keys"
  proof
    assume "name \<in> set (packages x)"
    then have "WORDPRESS_NAMESPACE @ name \<in> set (map (\<lambda>name. WORDPRESS_NAMESPACE @ name) (packages x))"
      by simp
    then show "WORDPRESS_NAMESPACE @ name \<in> set ?keys"
      unfolding a by simp
  next
    assume "WORDPRESS_NAMESPACE @ name \<in> set ?keys"
    then have "WORDPRESS_NAMESPACE @ name \<in> set ?kept"
      by (simp add: startsWith_def)
    then have "WORDPRESS_NAMESPACE @ name \<in> set (map (\<lambda>name. WORDPRESS_NAMESPACE @ name) (packages x))"
      unfolding a .
    then show "name \<in> set (packages x)" by auto
  qed
  have c: "startsWith k WORDPRESS_NAMESPACE \<longleftrightarrow> take 11 k = ''@wordpress/''"
  proof
    assume "startsWith k WORDPRESS_NAMESPACE"
    then show "take 11 k = ''@wordpress/''"
      by (auto simp: startsWith_def WORDPRESS_NAMESPACE_def prefix_def)
  next
    assume t: "take 11 k = ''@wordpress/''"
    have "k = take 11 k @ drop 11 k" by simp
    with t have "k = ''@wordpress/'' @ drop 11 k" by simp
    then show "startsWith k WORDPRESS_NAMESPACE"
      unfolding startsWith_def WORDPRESS_NAMESPACE_def by (rule prefixI)
  qed
  have d: "packages x = []"
    if "\<forall>k \<in> set ?keys. \<not> startsWith k WORDPRESS_NAMESPACE"
    using that by (simp add: packages_eq)
  from a b c d show ?thesis by blast
qed

theorem packages_prefix_filter_witness:
  "packages sample_externals = [''a11y'', ''api-fetch'']
   \<and> map (\<lambda>name. WORDPRESS_NAMESPACE @ name) (packages sample_externals) =
       [''@wordpress/a11y'', ''@wordpress/api-fetch'']
   \<and> \<not> startsWith ''lodash'' WORDPRESS_NAMESPACE
   \<and> \<not> startsWith ''wordpress/x'' WORDPRESS_NAMESPACE
   \<and> packages (sample_externals \<lparr> dependencies := [(''lodash'', ''4.17.15'')] \<rparr>) = []"
proof -
  have n: "\<forall>k \<in> set (Object_keys (dependencies
        (sample_externals \<lparr> dependencies := [(''lodash'', ''4.17.15'')] \<rparr>))).
      \<not> startsWith k WORDPRESS_NAMESPACE"
    by (simp add: Object_keys_def startsWith_def WORDPRESS_NAMESPACE_def)
  have v: "packages sample_externals = [''a11y'', ''api-fetch'']"
    "map (\<lambda>name. WORDPRESS_NAMESPACE @ name) (packages sample_externals) =
       [''@wordpress/a11y'', ''@wordpress/api-fetch'']"
    "\<not> startsWith ''lodash'' WORDPRESS_NAMESPACE"
    "\<not> startsWith ''wordpress/x'' WORDPRESS_NAMESPACE"
    by code_simp+
  from packages_prefix_filter [of "sample_externals \<lparr> dependencies := [(''lodash'', ''4.17.15'')] \<rparr>"] n
  have "packages (sample_externals \<lparr> dependencies := [(''lodash'', ''4.17.15'')] \<rparr>) = []"
    by blast
  with v show ?thesis by simp
qed

section \<open>The build target\<close>

text \<open>
  The defaults belong to the parameter as a whole. An options object that has no
  environment, as \<open>{ watch: true }\<close>, leaves the mode undefined, and the build target is
  then \<open>src/wp-includes\<close>, not the \<open>build/wp-includes\<close> that a default of \<open>production\<close> for the
  environment alone would give.
\<close>

theorem buildTarget_absent_environment_counterexample:
  "buildTarget (env_of (Some \<lparr> env_environment = Undefined, env_watch = JBool True,
       env_buildTarget = Undefined \<rparr>)) = ''src/wp-includes''
   \<and> spec_buildTarget Undefined Undefined = ''build/wp-includes''
   \<and> buildTarget (env_of (Some \<lparr> env_environment = Undefined, env_watch = JBool True,
       env_buildTarget = Undefined \<rparr>)) \<noteq> spec_buildTarget Undefined Undefined"
  by (simp add: buildTarget_def env_of_def mode_def spec_buildTarget_def)

text \<open>
  C4, as amended. The build target is the override followed by \<open>/wp-includes\<close> when the
  override is truthy (a non-empty string); otherwise (override \<open>false\<close>, absent or the empty
  string) it is \<open>build/wp-includes\<close> when the mode is exactly \<open>production\<close> and
  \<open>src/wp-includes\<close> for every other mode, an absent one included. It agrees with the
  reading of the specification whenever the environment is present and the override is
  not the empty string. The defaults apply when the function is called without an
  argument, and give \<open>build/wp-includes\<close>.
\<close>

theorem buildTarget_override_or_mode:
  "(truthy (env_buildTarget env) \<longrightarrow>
      buildTarget (env_of (Some env)) = js_toString (env_buildTarget env) @ ''/wp-includes'')
   \<and> (\<not> truthy (env_buildTarget env) \<and> env_environment env = JStr ''production'' \<longrightarrow>
      buildTarget (env_of (Some env)) = ''build/wp-includes'')
   \<and> (\<not> truthy (env_buildTarget env) \<and> env_environment env \<noteq> JStr ''production'' \<longrightarrow>
      buildTarget (env_of (Some env)) = ''src/wp-includes'')
   \<and> (env_environment env \<noteq> Undefined \<and> env_buildTarget env \<noteq> JStr [] \<longrightarrow>
      buildTarget (env_of (Some env)) =
        spec_buildTarget (env_environment env) (env_buildTarget env))
   \<and> env_of None = default_env
   \<and> buildTarget (env_of None) = ''build/wp-includes''"
proof -
  have a: "buildTarget (env_of (Some env)) =
      spec_buildTarget (env_environment env) (env_buildTarget env)"
    if "env_environment env \<noteq> Undefined" and "env_buildTarget env \<noteq> JStr []"
  proof (cases "env_buildTarget env")
    case Undefined
    with that show ?thesis
      by (simp add: buildTarget_def env_of_def mode_def spec_buildTarget_def)
  next
    case (JBool b)
    with that show ?thesis
      by (simp add: buildTarget_def env_of_def mode_def spec_buildTarget_def)
  next
    case (JStr s)
    with that show ?thesis
      by (simp add: buildTarget_def env_of_def mode_def spec_buildTarget_def)
  qed
  have b: "buildTarget (env_of None) = ''build/wp-includes''"
    by (simp add: buildTarget_def env_of_def mode_def default_env_def)
  show ?thesis
    using a b by (simp add: buildTarget_def env_of_def mode_def)
qed

theorem buildTarget_override_or_mode_witness:
  "truthy (JStr ''build/'')
   \<and> buildTarget (env_of (Some \<lparr> env_environment = JStr ''development'', env_watch = JBool False,
        env_buildTarget = JStr ''build/'' \<rparr>)) = ''build//wp-includes''
   \<and> \<not> truthy (JBool False)
   \<and> buildTarget (env_of (Some \<lparr> env_environment = JStr ''production'', env_watch = JBool False,
        env_buildTarget = JBool False \<rparr>)) = ''build/wp-includes''
   \<and> JStr ''development'' \<noteq> JStr ''production''
   \<and> buildTarget (env_of (Some \<lparr> env_environment = JStr ''development'', env_watch = JBool False,
        env_buildTarget = JBool False \<rparr>)) = ''src/wp-includes''
   \<and> spec_buildTarget (JStr ''development'') (JBool False) = ''src/wp-includes''"
  using
    buildTarget_override_or_mode [of "\<lparr> env_environment = JStr ''development'',
      env_watch = JBool False, env_buildTarget = JStr ''build/'' \<rparr>"]
    buildTarget_override_or_mode [of "\<lparr> env_environment = JStr ''production'',
      env_watch = JBool False, env_buildTarget = JBool False \<rparr>"]
    buildTarget_override_or_mode [of "\<lparr> env_environment = JStr ''development'',
      env_watch = JBool False, env_buildTarget = JBool False \<rparr>"]
  by (simp add: spec_buildTarget_def)

section \<open>Vendor copies\<close>

lemma obj_get_distinct:
  "distinct (map fst obj) \<Longrightarrow> (k, v) \<in> set obj \<Longrightarrow> obj_get obj k = JStr v"
  by (simp add: obj_get_def)

lemma mapVendorCopies_length: "length (mapVendorCopies x vs bt) = length vs"
  by (simp add: mapVendorCopies_def Object_keys_def)

lemma mapVendorCopies_to:
  "map copy_to (mapVendorCopies x vs bt) =
     map (\<lambda>(filename, rel). join x (baseDir x) (bt @ ''/js/dist/vendor/'' @ filename)) vs"
  by (simp add: mapVendorCopies_def Object_keys_def comp_def case_prod_beta)

lemma mapVendorCopies_from:
  "distinct (map fst vs) \<Longrightarrow>
   map copy_from (mapVendorCopies x vs bt) =
     map (\<lambda>(filename, rel). join x (baseDir x) (''node_modules/'' @ rel)) vs"
proof -
  assume d: "distinct (map fst vs)"
  have "map copy_from (mapVendorCopies x vs bt) =
      map (\<lambda>p. join x (baseDir x) (''node_modules/'' @ js_toString (obj_get vs (fst p)))) vs"
    by (simp add: mapVendorCopies_def Object_keys_def comp_def)
  also have "\<dots> = map (\<lambda>(filename, rel). join x (baseDir x) (''node_modules/'' @ rel)) vs"
  proof (rule map_cong [OF refl])
    fix p assume "p \<in> set vs"
    then have "obj_get vs (fst p) = JStr (snd p)"
      using obj_get_distinct [OF d, of "fst p" "snd p"] by simp
    then show "join x (baseDir x) (''node_modules/'' @ js_toString (obj_get vs (fst p))) =
        (case p of (filename, rel) \<Rightarrow> join x (baseDir x) (''node_modules/'' @ rel))"
      by (simp add: case_prod_beta)
  qed
  finally show ?thesis .
qed

lemma mapVendorCopies_plain:
  "c \<in> set (mapVendorCopies x vs bt) \<Longrightarrow>
   copy_transform c = None \<and> copy_transformPath c = None \<and> copy_test c = None
   \<and> copy_flatten c = None"
  by (auto simp: mapVendorCopies_def)

text \<open>
  C5. For every vendor map (an object: its property names are distinct) and build
  target, mapVendorCopies gives one copy instruction per entry, in the order of the
  entries; the source is the base directory joined with \<open>node_modules/\<close> and the relative
  path, the destination is the base directory joined with the build target,
  \<open>/js/dist/vendor/\<close> and the filename, and no transform is attached. For the map
  \<open>{"x.js": "pkg/x.js"}\<close> and the build target \<open>build/wp-includes\<close> the destination is the
  base directory joined with \<open>build/wp-includes/js/dist/vendor/x.js\<close>.
\<close>

theorem mapVendorCopies_one_per_entry:
  "distinct (map fst vs) \<Longrightarrow>
   length (mapVendorCopies x vs bt) = length vs
   \<and> map copy_from (mapVendorCopies x vs bt) =
       map (\<lambda>(filename, rel). join x (baseDir x) (''node_modules/'' @ rel)) vs
   \<and> map copy_to (mapVendorCopies x vs bt) =
       map (\<lambda>(filename, rel). join x (baseDir x) (bt @ ''/js/dist/vendor/'' @ filename)) vs
   \<and> (\<forall>c \<in> set (mapVendorCopies x vs bt). copy_transform c = None \<and> copy_transformPath c = None)
   \<and> map copy_to (mapVendorCopies x [(''x.js'', ''pkg/x.js'')] ''build/wp-includes'') =
       [join x (baseDir x) ''build/wp-includes/js/dist/vendor/x.js'']"
  using mapVendorCopies_length [of x vs bt] mapVendorCopies_from [of vs x bt]
    mapVendorCopies_to [of x vs bt] mapVendorCopies_plain [of _ x vs bt]
    mapVendorCopies_to [of x "[(''x.js'', ''pkg/x.js'')]" "''build/wp-includes''"]
  by simp

theorem mapVendorCopies_one_per_entry_witness:
  "distinct (map fst [(''x.js'', ''pkg/x.js''), (''y.js'', ''pkg/sub/y.js'')])
   \<and> length (mapVendorCopies sample_externals [(''x.js'', ''pkg/x.js''), (''y.js'', ''pkg/sub/y.js'')]
        ''build/wp-includes'') = 2
   \<and> map copy_from (mapVendorCopies sample_externals
        [(''x.js'', ''pkg/x.js''), (''y.js'', ''pkg/sub/y.js'')] ''build/wp-includes'') =
       [''/repo/node_modules/pkg/x.js'', ''/repo/node_modules/pkg/sub/y.js'']
   \<and> map copy_to (mapVendorCopies sample_externals
        [(''x.js'', ''pkg/x.js''), (''y.js'', ''pkg/sub/y.js'')] ''build/wp-includes'') =
       [''/repo/build/wp-includes/js/dist/vendor/x.js'',
        ''/repo/build/wp-includes/js/dist/vendor/y.js'']
   \<and> map copy_transform (mapVendorCopies sample_externals
        [(''x.js'', ''pkg/x.js''), (''y.js'', ''pkg/sub/y.js'')] ''build/wp-includes'') =
       [None, None]
   \<and> map copy_to (mapVendorCopies sample_externals [(''x.js'', ''pkg/x.js'')] ''build/wp-includes'') =
       [''/repo/build/wp-includes/js/dist/vendor/x.js'']"
proof -
  have d: "distinct (map fst [(''x.js'', ''pkg/x.js''), (''y.js'', ''pkg/sub/y.js'')])"
    by simp
  have j: "join sample_externals = posix_join" "baseDir sample_externals = ''/repo/''"
    by (simp add: sample_externals_def, code_simp)
  have v: "posix_join ''/repo/'' ''node_modules/pkg/x.js'' = ''/repo/node_modules/pkg/x.js''"
    "posix_join ''/repo/'' ''node_modules/pkg/sub/y.js'' = ''/repo/node_modules/pkg/sub/y.js''"
    "posix_join ''/repo/'' ''build/wp-includes/js/dist/vendor/x.js'' =
       ''/repo/build/wp-includes/js/dist/vendor/x.js''"
    "posix_join ''/repo/'' ''build/wp-includes/js/dist/vendor/y.js'' =
       ''/repo/build/wp-includes/js/dist/vendor/y.js''"
    by code_simp+
  have t: "map copy_transform (mapVendorCopies sample_externals
        [(''x.js'', ''pkg/x.js''), (''y.js'', ''pkg/sub/y.js'')] ''build/wp-includes'') =
       [None, None]"
    by (simp add: mapVendorCopies_def Object_keys_def)
  show ?thesis
    using mapVendorCopies_one_per_entry [OF d, of sample_externals "''build/wp-includes''"] d t
    by (simp add: j v)
qed

section \<open>The vendor copy list by mode\<close>

lemma minifyCopies_paths:
  "map copy_from (minifyCopies x env) =
     map copy_from (mapVendorCopies x minifyVendors (buildTarget env))"
  "map copy_to (minifyCopies x env) =
     map copy_to (mapVendorCopies x minifyVendors (buildTarget env))"
  by (simp_all add: minifyCopies_def comp_def)

lemma minifyCopies_transform:
  "c \<in> set (minifyCopies x env) \<Longrightarrow> copy_transform c = Some (minify_transform x)"
  by (auto simp: minifyCopies_def)

lemma minify_transform_code:
  "minify_transform x content =
     (case UglifyJS_minify x content of Inl e \<Rightarrow> Inl e | Inr result \<Rightarrow> Inr (out_code result))"
  by (simp add: minify_transform_def)

text \<open>
  C6. When the mode is \<open>development\<close>, the vendor copy list is the list for the unminified
  vendor set, without transforms. For every other mode it is the list for the pre-minified
  set (without transforms) followed by the list for the needs-minification set, whose
  entries have the same paths as mapVendorCopies gives them and each carry a content
  transform that passes the text to the minifier and returns the code of the result.
\<close>

theorem vendorCopies_by_mode:
  "(mode env = JStr ''development'' \<longrightarrow>
      vendorCopies x env = mapVendorCopies x vendors (buildTarget env)
      \<and> (\<forall>c \<in> set (vendorCopies x env). copy_transform c = None))
   \<and> (mode env \<noteq> JStr ''development'' \<longrightarrow>
      vendorCopies x env =
        mapVendorCopies x minifiedVendors (buildTarget env) @ minifyCopies x env
      \<and> (\<forall>c \<in> set (mapVendorCopies x minifiedVendors (buildTarget env)). copy_transform c = None)
      \<and> map copy_from (minifyCopies x env) =
          map copy_from (mapVendorCopies x minifyVendors (buildTarget env))
      \<and> map copy_to (minifyCopies x env) =
          map copy_to (mapVendorCopies x minifyVendors (buildTarget env))
      \<and> (\<forall>c \<in> set (minifyCopies x env). \<exists>f. copy_transform c = Some f \<and>
            (\<forall>content. f content =
               (case UglifyJS_minify x content of
                  Inl e \<Rightarrow> Inl e
                | Inr result \<Rightarrow> Inr (out_code result)))))"
proof -
  have dev: "vendorCopies x env = mapVendorCopies x vendors (buildTarget env)"
    if "mode env = JStr ''development''"
    using that by (simp add: vendorCopies_def developmentCopies_def)
  have other: "vendorCopies x env =
      mapVendorCopies x minifiedVendors (buildTarget env) @ minifyCopies x env"
    if "mode env \<noteq> JStr ''development''"
    using that by (simp add: vendorCopies_def minifiedCopies_def)
  have plain: "\<forall>c \<in> set (mapVendorCopies x vs (buildTarget env)). copy_transform c = None" for vs
    using mapVendorCopies_plain by blast
  have tr: "\<forall>c \<in> set (minifyCopies x env). \<exists>f. copy_transform c = Some f \<and>
      (\<forall>content. f content =
         (case UglifyJS_minify x content of
            Inl e \<Rightarrow> Inl e
          | Inr result \<Rightarrow> Inr (out_code result)))"
    using minifyCopies_transform minify_transform_code by blast
  show ?thesis
    using dev other plain [of vendors] plain [of minifiedVendors] tr minifyCopies_paths [of x env]
    by simp
qed

theorem vendorCopies_by_mode_witness:
  "mode development_env = JStr ''development''
   \<and> map copy_to (vendorCopies sample_externals development_env) =
       map (\<lambda>filename. ''/repo/src/wp-includes/js/dist/vendor/'' @ filename) (Object_keys vendors)
   \<and> map (\<lambda>c. map_option (\<lambda>f. f ''var a = 1;'') (copy_transform c))
         (vendorCopies sample_externals development_env) = replicate 9 None
   \<and> mode default_env \<noteq> JStr ''development''
   \<and> map copy_to (vendorCopies sample_externals default_env) =
       map (\<lambda>filename. ''/repo/build/wp-includes/js/dist/vendor/'' @ filename)
         (Object_keys minifiedVendors @ Object_keys minifyVendors)
   \<and> map (\<lambda>c. map_option (\<lambda>f. f ''var a = 1;'') (copy_transform c))
         (vendorCopies sample_externals default_env) =
       replicate 6 None @ replicate 3 (Some (Inr (JStr ''vara=1;'')))"
proof -
  have m: "mode development_env = JStr ''development''" "mode default_env \<noteq> JStr ''development''"
    by (simp_all add: mode_def development_env_def default_env_def)
  have v: "map copy_to (mapVendorCopies sample_externals vendors (buildTarget development_env)) =
       map (\<lambda>filename. ''/repo/src/wp-includes/js/dist/vendor/'' @ filename) (Object_keys vendors)"
    "map (\<lambda>c. map_option (\<lambda>f. f ''var a = 1;'') (copy_transform c))
         (mapVendorCopies sample_externals vendors (buildTarget development_env)) =
       replicate 9 None"
    "map copy_to (mapVendorCopies sample_externals minifiedVendors (buildTarget default_env)
         @ minifyCopies sample_externals default_env) =
       map (\<lambda>filename. ''/repo/build/wp-includes/js/dist/vendor/'' @ filename)
         (Object_keys minifiedVendors @ Object_keys minifyVendors)"
    "map (\<lambda>c. map_option (\<lambda>f. f ''var a = 1;'') (copy_transform c))
         (mapVendorCopies sample_externals minifiedVendors (buildTarget default_env)
           @ minifyCopies sample_externals default_env) =
       replicate 6 None @ replicate 3 (Some (Inr (JStr ''vara=1;'')))"
    by code_simp+
  show ?thesis
    using vendorCopies_by_mode [of development_env sample_externals]
      vendorCopies_by_mode [of default_env sample_externals] m v
    by simp
qed

section \<open>Stylesheet copies\<close>

lemma replace_css_min_css: "replace_css_min (p @ ''.css'') = p @ ''.min.css''"
  by (simp add: replace_css_min_def suffix_def)

lemma replace_css_min_other: "\<not> suffix ''.css'' p \<Longrightarrow> replace_css_min p = p"
  by (simp add: replace_css_min_def)

text \<open>
  C7. There is one stylesheet copy instruction per package, and each carries a content
  transform and a destination-path transform. When the mode is \<open>production\<close>, the path
  transform rewrites a final \<open>.css\<close> to \<open>.min.css\<close> (a path that does not end in \<open>.css\<close> is
  unchanged) and the content transform gives the outcome of the CSS minifier. For every
  other mode, both return their argument unchanged.
\<close>

theorem cssCopies_production_only:
  "length (cssCopies x env pkgs) = length pkgs
   \<and> (\<forall>c \<in> set (cssCopies x env pkgs).
        \<exists>f g. copy_transform c = Some f \<and> copy_transformPath c = Some g
         \<and> (mode env = JStr ''production'' \<longrightarrow>
              (\<forall>p src. g (p @ ''.css'') src = p @ ''.min.css'')
              \<and> (\<forall>p src. \<not> suffix ''.css'' p \<longrightarrow> g p src = p)
              \<and> (\<forall>content. f content =
                    (case cssnano x content of Inl e \<Rightarrow> Inl e | Inr css \<Rightarrow> Inr (JStr css))))
         \<and> (mode env \<noteq> JStr ''production'' \<longrightarrow>
              (\<forall>p src. g p src = p) \<and> (\<forall>content. f content = Inr (JStr content))))"
proof -
  have "copy_transform c = Some (css_transform x env)
      \<and> copy_transformPath c = Some (css_transformPath env)"
    if "c \<in> set (cssCopies x env pkgs)" for c
    using that by (auto simp: cssCopies_def)
  moreover have "mode env = JStr ''production'' \<longrightarrow>
      (\<forall>p src. css_transformPath env (p @ ''.css'') src = p @ ''.min.css'')
      \<and> (\<forall>p src. \<not> suffix ''.css'' p \<longrightarrow> css_transformPath env p src = p)
      \<and> (\<forall>content. css_transform x env content =
            (case cssnano x content of Inl e \<Rightarrow> Inl e | Inr css \<Rightarrow> Inr (JStr css)))"
    by (simp add: css_transformPath_def css_transform_def replace_css_min_css
        replace_css_min_other)
  moreover have "mode env \<noteq> JStr ''production'' \<longrightarrow>
      (\<forall>p src. css_transformPath env p src = p)
      \<and> (\<forall>content. css_transform x env content = Inr (JStr content))"
    by (simp add: css_transformPath_def css_transform_def)
  moreover have "length (cssCopies x env pkgs) = length pkgs"
    by (simp add: cssCopies_def)
  ultimately show ?thesis by blast
qed

theorem cssCopies_production_only_witness:
  "mode default_env = JStr ''production''
   \<and> mode development_env \<noteq> JStr ''production''
   \<and> length (cssCopies sample_externals default_env [''a11y'']) = 1
   \<and> map (\<lambda>c. map_option (\<lambda>g. g ''/repo/build/wp-includes/css/dist/a11y/style.css''
            ''/repo/node_modules/@wordpress/a11y/build-style/style.css'') (copy_transformPath c))
        (cssCopies sample_externals default_env [''a11y'']) =
       [Some ''/repo/build/wp-includes/css/dist/a11y/style.min.css'']
   \<and> map (\<lambda>c. map_option (\<lambda>f. f ''a { color: red }'') (copy_transform c))
        (cssCopies sample_externals default_env [''a11y'']) = [Some (Inr (JStr ''a{color:red}''))]
   \<and> map (\<lambda>c. map_option (\<lambda>g. g ''/repo/src/wp-includes/css/dist/a11y/style.css''
            ''/repo/node_modules/@wordpress/a11y/build-style/style.css'') (copy_transformPath c))
        (cssCopies sample_externals development_env [''a11y'']) =
       [Some ''/repo/src/wp-includes/css/dist/a11y/style.css'']
   \<and> map (\<lambda>c. map_option (\<lambda>f. f ''a { color: red }'') (copy_transform c))
        (cssCopies sample_externals development_env [''a11y'']) =
       [Some (Inr (JStr ''a { color: red }''))]"
proof -
  have v: "mode default_env = JStr ''production''"
    "mode development_env \<noteq> JStr ''production''"
    "map (\<lambda>c. map_option (\<lambda>g. g ''/repo/build/wp-includes/css/dist/a11y/style.css''
            ''/repo/node_modules/@wordpress/a11y/build-style/style.css'') (copy_transformPath c))
        (cssCopies sample_externals default_env [''a11y'']) =
       [Some ''/repo/build/wp-includes/css/dist/a11y/style.min.css'']"
    "map (\<lambda>c. map_option (\<lambda>f. f ''a { color: red }'') (copy_transform c))
        (cssCopies sample_externals default_env [''a11y'']) = [Some (Inr (JStr ''a{color:red}''))]"
    "map (\<lambda>c. map_option (\<lambda>g. g ''/repo/src/wp-includes/css/dist/a11y/style.css''
            ''/repo/node_modules/@wordpress/a11y/build-style/style.css'') (copy_transformPath c))
        (cssCopies sample_externals development_env [''a11y'']) =
       [Some ''/repo/src/wp-includes/css/dist/a11y/style.css'']"
    "map (\<lambda>c. map_option (\<lambda>f. f ''a { color: red }'') (copy_transform c))
        (cssCopies sample_externals development_env [''a11y'']) =
       [Some (Inr (JStr ''a { color: red }''))]"
    by code_simp+
  show ?thesis
    using cssCopies_production_only [of sample_externals default_env "[''a11y'']"]
      cssCopies_production_only [of sample_externals development_env "[''a11y'']"] v
    by simp
qed

section \<open>The minifier transform\<close>

text \<open>
  A minifier that reports a parse error in its result, without throwing, fails on
  \<open>if (0) else\<close>; the transform does not throw there: it returns \<open>undefined\<close>, the absent
  code of the result.
\<close>

theorem minify_transform_reported_error_counterexample:
  "minifier_fails sample_externals ''if (0) else''
   \<and> \<not> failure_propagates sample_externals ''if (0) else''
   \<and> minify_transform sample_externals ''if (0) else'' = Inr Undefined"
  by (simp add: minifier_fails_def failure_propagates_def minify_transform_def
      sample_externals_def sample_minify_def)

text \<open>
  C8, as amended. When the minifier throws on an input, the transform throws the same
  error: nothing catches it, and the transform throws in no other case. When the
  minifier returns, the transform returns the code of the result, and whatever the
  transform returns is the code of a result of the minifier, so it never falls back to
  the unminified content by itself. Every needs-minification copy carries this transform.
\<close>

theorem minify_transform_no_fallback:
  "(UglifyJS_minify x content = Inl e \<longrightarrow> minify_transform x content = Inl e)
   \<and> (UglifyJS_minify x content = Inl e \<longrightarrow> failure_propagates x content)
   \<and> (UglifyJS_minify x content = Inr result \<longrightarrow>
        minify_transform x content = Inr (out_code result))
   \<and> (minify_transform x content = Inr v \<longrightarrow>
        (\<exists>result. UglifyJS_minify x content = Inr result \<and> out_code result = v))
   \<and> (minify_transform x content = Inl e \<longrightarrow> UglifyJS_minify x content = Inl e)
   \<and> (\<forall>c \<in> set (minifyCopies x env). copy_transform c = Some (minify_transform x))"
proof -
  have thrown: "minify_transform x content = Inl e" if "UglifyJS_minify x content = Inl e"
    using that by (simp add: minify_transform_def)
  have returned: "minify_transform x content = Inr (out_code result)"
    if "UglifyJS_minify x content = Inr result"
    using that by (simp add: minify_transform_def)
  have only_code: "\<exists>result. UglifyJS_minify x content = Inr result \<and> out_code result = v"
    if "minify_transform x content = Inr v"
    using that by (cases "UglifyJS_minify x content") (simp_all add: minify_transform_def)
  have only_thrown: "UglifyJS_minify x content = Inl e" if "minify_transform x content = Inl e"
    using that by (cases "UglifyJS_minify x content") (simp_all add: minify_transform_def)
  have propagated: "failure_propagates x content" if "UglifyJS_minify x content = Inl e"
    using thrown [OF that] by (simp add: failure_propagates_def)
  have carried: "\<forall>c \<in> set (minifyCopies x env). copy_transform c = Some (minify_transform x)"
    using minifyCopies_transform by blast
  from thrown returned propagated only_code only_thrown carried show ?thesis
    by blast
qed

theorem minify_transform_no_fallback_witness:
  "UglifyJS_minify (sample_externals \<lparr> UglifyJS_minify := (\<lambda>text. Inl ''TypeError'') \<rparr>)
       ''var a = 1;'' = Inl ''TypeError''
   \<and> minify_transform (sample_externals \<lparr> UglifyJS_minify := (\<lambda>text. Inl ''TypeError'') \<rparr>)
       ''var a = 1;'' = Inl ''TypeError''
   \<and> failure_propagates (sample_externals \<lparr> UglifyJS_minify := (\<lambda>text. Inl ''TypeError'') \<rparr>)
       ''var a = 1;''
   \<and> UglifyJS_minify sample_externals ''var a = 1;'' =
       Inr \<lparr> out_code = JStr ''vara=1;'', out_error = Undefined \<rparr>
   \<and> minify_transform sample_externals ''var a = 1;'' = Inr (JStr ''vara=1;'')
   \<and> map (\<lambda>c. map_option (\<lambda>f. f ''var a = 1;'') (copy_transform c))
        (minifyCopies sample_externals default_env) = replicate 3 (Some (Inr (JStr ''vara=1;'')))"
proof -
  let ?thrower = "sample_externals \<lparr> UglifyJS_minify := (\<lambda>text. Inl ''TypeError'') \<rparr>"
  have t: "UglifyJS_minify ?thrower ''var a = 1;'' = Inl ''TypeError''"
    by simp
  have r: "UglifyJS_minify sample_externals ''var a = 1;'' =
       Inr \<lparr> out_code = JStr ''vara=1;'', out_error = Undefined \<rparr>"
    by (simp add: sample_externals_def sample_minify_def)
  have m: "map (\<lambda>c. map_option (\<lambda>f. f ''var a = 1;'') (copy_transform c))
        (minifyCopies sample_externals default_env) = replicate 3 (Some (Inr (JStr ''vara=1;'')))"
    by code_simp
  from minify_transform_no_fallback [where x = "?thrower" and content = "''var a = 1;''"
      and e = "''TypeError''"] t
  have thrown: "minify_transform ?thrower ''var a = 1;'' = Inl ''TypeError''"
    "failure_propagates ?thrower ''var a = 1;''"
    by blast+
  from minify_transform_no_fallback [where x = sample_externals and content = "''var a = 1;''"
      and result = "\<lparr> out_code = JStr ''vara=1;'', out_error = Undefined \<rparr>"] r
  have returned: "minify_transform sample_externals ''var a = 1;'' =
      Inr (out_code \<lparr> out_code = JStr ''vara=1;'', out_error = Undefined \<rparr>)"
    by blast
  show ?thesis
    using thrown returned t r m by (simp del: replicate.simps)
qed

section \<open>The entry map\<close>

subsection \<open>Assignment to a property\<close>

lemma insert_index_step:
  "is_array_index (fst p) \<and> decimal (fst p) < decimal k \<Longrightarrow>
   insert_index k v (p # ps) = p # insert_index k v ps"
  by simp

lemma insert_index_stop:
  "\<not> (is_array_index (fst p) \<and> decimal (fst p) < decimal k) \<Longrightarrow>
   insert_index k v (p # ps) = (k, v) # p # ps"
  by auto

lemma insert_index_map_of: "map_of (insert_index k v obj) = (map_of obj)(k \<mapsto> v)"
proof (induction obj)
  case Nil
  show ?case by simp
next
  case (Cons p ps)
  show ?case
  proof (cases "is_array_index (fst p) \<and> decimal (fst p) < decimal k")
    case True
    then have ne: "fst p \<noteq> k" by auto
    have "map_of (insert_index k v (p # ps)) = (map_of (insert_index k v ps))(fst p \<mapsto> snd p)"
      unfolding insert_index_step [OF True] by (cases p) simp
    also have "\<dots> = ((map_of ps)(k \<mapsto> v))(fst p \<mapsto> snd p)"
      by (simp only: Cons.IH)
    also have "\<dots> = ((map_of ps)(fst p \<mapsto> snd p))(k \<mapsto> v)"
      using ne by (simp add: fun_upd_twist)
    also have "\<dots> = (map_of (p # ps))(k \<mapsto> v)"
      by (cases p) simp
    finally show ?thesis .
  next
    case False
    show ?thesis
      unfolding insert_index_stop [OF False] by (rule ext) simp
  qed
qed

lemma insert_index_keys: "set (map fst (insert_index k v obj)) = insert k (set (map fst obj))"
  by (induction obj) auto

lemma insert_index_distinct:
  "distinct (map fst obj) \<Longrightarrow> k \<notin> set (map fst obj) \<Longrightarrow>
   distinct (map fst (insert_index k v obj))"
proof (induction obj)
  case Nil
  show ?case by simp
next
  case (Cons p ps)
  then have d: "distinct (map fst (insert_index k v ps))" by simp
  have "fst p \<notin> set (map fst (insert_index k v ps))"
    using Cons.prems insert_index_keys [of k v ps] by auto
  with d Cons.prems show ?case by auto
qed

lemma obj_assign_map_of:
  "map_of (obj_assign obj k v) =
     (if k = ''__proto__'' then map_of obj else (map_of obj)(k \<mapsto> v))"
  by (simp add: obj_assign_def insert_index_map_of update_conv')

lemma obj_assign_keys:
  "set (map fst (obj_assign obj k v)) =
     (if k = ''__proto__'' then set (map fst obj) else insert k (set (map fst obj)))"
  using dom_update [of k v obj] insert_index_keys [of k v obj]
  by (auto simp: obj_assign_def)

lemma obj_assign_distinct:
  "distinct (map fst obj) \<Longrightarrow> distinct (map fst (obj_assign obj k v))"
proof -
  assume d: "distinct (map fst obj)"
  have "k \<notin> set (map fst obj)" if "map_of obj k = None"
    using that by (simp add: map_of_eq_None_iff)
  with d show ?thesis
    by (simp add: obj_assign_def insert_index_distinct distinct_update)
qed

text \<open>The array indices stay in front, in ascending order.\<close>

lemma index_keys_first_Cons:
  "index_keys_first (a # ks) \<longleftrightarrow>
     (case ks of [] \<Rightarrow> True
      | b # bs \<Rightarrow> (if is_array_index b then is_array_index a \<and> decimal a \<le> decimal b else True)
          \<and> index_keys_first ks)"
  by (cases ks) simp_all

lemma insert_index_hd:
  "map fst (insert_index k v obj) \<noteq> []
   \<and> (hd (map fst (insert_index k v obj)) = k
      \<or> (obj \<noteq> [] \<and> hd (map fst (insert_index k v obj)) = fst (hd obj)
          \<and> is_array_index (fst (hd obj)) \<and> decimal (fst (hd obj)) < decimal k))"
proof (cases obj)
  case Nil
  then show ?thesis by simp
next
  case (Cons p ps)
  show ?thesis
  proof (cases "is_array_index (fst p) \<and> decimal (fst p) < decimal k")
    case True
    show ?thesis
      unfolding Cons insert_index_step [OF True] using True by simp
  next
    case False
    show ?thesis
      unfolding Cons insert_index_stop [OF False] by simp
  qed
qed

lemma insert_index_ordered:
  "is_array_index k \<Longrightarrow> index_keys_first (map fst obj) \<Longrightarrow>
   index_keys_first (map fst (insert_index k v obj))"
proof (induction obj)
  case Nil
  show ?case by simp
next
  case (Cons p ps)
  show ?case
  proof (cases "is_array_index (fst p) \<and> decimal (fst p) < decimal k")
    case True
    from Cons.prems have tl: "index_keys_first (map fst ps)"
      by (cases ps) simp_all
    have st: "insert_index k v (p # ps) = p # insert_index k v ps"
      by (rule insert_index_step [OF True])
    have ih: "index_keys_first (map fst (insert_index k v ps))"
      using Cons.IH [OF Cons.prems(1) tl] .
    obtain b bs where e: "map fst (insert_index k v ps) = b # bs"
      using insert_index_hd [of k v ps] by (cases "map fst (insert_index k v ps)") auto
    have "b = k \<or> (ps \<noteq> [] \<and> b = fst (hd ps))"
      using insert_index_hd [of k v ps] e by auto
    then have "if is_array_index b then is_array_index (fst p) \<and> decimal (fst p) \<le> decimal b
        else True"
    proof
      assume "b = k"
      with True show ?thesis by simp
    next
      assume a: "ps \<noteq> [] \<and> b = fst (hd ps)"
      then obtain q qs where q: "ps = q # qs" by (cases ps) auto
      with a Cons.prems(2) show ?thesis by simp
    qed
    with ih e show ?thesis
      unfolding st by simp
  next
    case False
    have "map fst (insert_index k v (p # ps)) = k # fst p # map fst ps"
      unfolding insert_index_stop [OF False] by simp
    moreover have "if is_array_index (fst p) then is_array_index k \<and> decimal k \<le> decimal (fst p)
        else True"
      using False Cons.prems(1) by auto
    ultimately show ?thesis using Cons.prems(2) by simp
  qed
qed

lemma update_same_keys: "map_of obj k \<noteq> None \<Longrightarrow> map fst (AList.update k v obj) = map fst obj"
  by (induction obj) auto

lemma update_new_key: "map_of obj k = None \<Longrightarrow> AList.update k v obj = obj @ [(k, v)]"
  by (induction obj) (auto split: if_splits)

lemma index_keys_first_snoc:
  "\<not> is_array_index k \<Longrightarrow> index_keys_first ks \<Longrightarrow> index_keys_first (ks @ [k])"
  by (induction ks rule: index_keys_first.induct) simp_all

lemma obj_assign_ordered:
  "index_keys_first (map fst obj) \<Longrightarrow> index_keys_first (map fst (obj_assign obj k v))"
proof -
  assume o: "index_keys_first (map fst obj)"
  show ?thesis
  proof (cases "map_of obj k = None")
    case True
    note absent = this
    show ?thesis
    proof (cases "is_array_index k")
      case True
      with o absent show ?thesis
        by (simp add: obj_assign_def insert_index_ordered)
    next
      case False
      with o absent show ?thesis
        by (simp add: obj_assign_def update_new_key index_keys_first_snoc)
    qed
  next
    case False
    have e: "map fst (AList.update k v obj) = map fst obj"
      by (rule update_same_keys [OF False])
    have "obj_assign obj k v = obj \<or> obj_assign obj k v = AList.update k v obj"
      using False by (auto simp: obj_assign_def)
    with o e show ?thesis by auto
  qed
qed

subsection \<open>The keys and the values of the entry map\<close>

lemma entry_snoc:
  "entry x (pkgs @ [p]) = obj_assign (entry x pkgs) (camelCaseDash p) (module_root x p)"
  by (simp add: entry_def module_root_def)

lemma entry_keys:
  "set (Object_keys (entry x pkgs)) = camelCaseDash ` set pkgs - {''__proto__''}"
proof (induction pkgs rule: rev_induct)
  case Nil
  show ?case by (simp add: entry_def Object_keys_def)
next
  case (snoc p pkgs)
  then have "set (map fst (entry x pkgs)) = camelCaseDash ` set pkgs - {''__proto__''}"
    by (simp add: Object_keys_def)
  then show ?case
    unfolding entry_snoc Object_keys_def obj_assign_keys by auto
qed

lemma entry_distinct: "distinct (Object_keys (entry x pkgs))"
proof (induction pkgs rule: rev_induct)
  case Nil
  show ?case by (simp add: entry_def Object_keys_def)
next
  case (snoc p pkgs)
  then show ?case
    by (simp add: entry_snoc Object_keys_def obj_assign_distinct)
qed

lemma entry_index_keys_first: "index_keys_first (Object_keys (entry x pkgs))"
proof (induction pkgs rule: rev_induct)
  case Nil
  show ?case by (simp add: entry_def Object_keys_def)
next
  case (snoc p pkgs)
  then show ?case
    by (simp add: entry_snoc Object_keys_def obj_assign_ordered)
qed

lemma entry_no_proto: "map_of (entry x pkgs) ''__proto__'' = None"
proof (induction pkgs rule: rev_induct)
  case Nil
  show ?case by (simp add: entry_def)
next
  case (snoc p pkgs)
  then show ?case
    by (simp add: entry_snoc obj_assign_map_of)
qed

lemma entry_lookup:
  "map_of (entry x pkgs) k =
     (if k = ''__proto__'' \<or> filter (\<lambda>p. camelCaseDash p = k) pkgs = [] then None
      else Some (module_root x (last (filter (\<lambda>p. camelCaseDash p = k) pkgs))))"
proof (induction pkgs rule: rev_induct)
  case Nil
  show ?case by (simp add: entry_def)
next
  case (snoc p pkgs)
  then show ?case
    by (simp add: entry_snoc obj_assign_map_of entry_no_proto)
qed

lemma entry_own_path:
  assumes p: "p \<in> set pkgs"
    and n: "camelCaseDash p \<noteq> ''__proto__''"
    and u: "\<forall>q \<in> set pkgs. camelCaseDash q = camelCaseDash p \<longrightarrow> q = p"
  shows "map_of (entry x pkgs) (camelCaseDash p) = Some (module_root x p)"
proof -
  let ?same = "filter (\<lambda>q. camelCaseDash q = camelCaseDash p) pkgs"
  from p have ne: "?same \<noteq> []"
    by (auto simp: filter_empty_conv)
  then have "last ?same \<in> set ?same" by (rule last_in_set)
  with u have "last ?same = p" by simp
  with ne n show ?thesis
    by (simp add: entry_lookup)
qed

text \<open>Names without upper-case letters: the dash-case form is recovered from the camel-case one.\<close>

lemma lower_upper_back:
  "is_lower c \<Longrightarrow> is_upper (toUpperCase c)
     \<and> char_of ((of_char (toUpperCase c) :: nat) + 32) = c"
proof -
  assume l: "is_lower c"
  then have b: "97 \<le> (of_char c :: nat)" "(of_char c :: nat) \<le> 122"
    by (simp_all add: is_lower_def)
  have u: "(of_char (toUpperCase c) :: nat) = of_char c - 32"
    using l b by (simp add: toUpperCase_def)
  have plus: "(of_char c :: nat) - 32 + 32 = of_char c"
    using b by arith
  have bounds: "65 \<le> (of_char c :: nat) - 32 \<and> (of_char c :: nat) - 32 \<le> 90"
    using b by arith
  show ?thesis
    unfolding is_upper_def u plus using bounds by simp
qed

lemma dashCase_camelCaseDash:
  "\<forall>c \<in> set s. \<not> is_upper c \<Longrightarrow> dashCase (camelCaseDash s) = s"
proof (induction s rule: camelCaseDash.induct)
  case (1 c d cs)
  show ?case
  proof (cases "c = CHR ''-'' \<and> is_lower d")
    case True
    with 1 lower_upper_back [of d] show ?thesis by simp
  next
    case False
    with 1 show ?thesis by auto
  qed
qed simp_all

lemma camelCaseDash_inj_dash_case:
  "\<forall>p \<in> A. \<forall>c \<in> set p. \<not> is_upper c \<Longrightarrow> inj_on camelCaseDash A"
  by (rule inj_on_inverseI [where g = dashCase]) (simp add: dashCase_camelCaseDash)

text \<open>A result without upper-case letters is the argument itself: nothing was replaced.\<close>

lemma camelCaseDash_no_upper:
  "\<forall>c \<in> set (camelCaseDash s). \<not> is_upper c \<Longrightarrow> camelCaseDash s = s"
proof (induction s rule: camelCaseDash.induct)
  case (1 c d cs)
  show ?case
  proof (cases "c = CHR ''-'' \<and> is_lower d")
    case True
    with "1.prems" lower_upper_back [of d] show ?thesis by simp
  next
    case False
    with 1 show ?thesis by auto
  qed
qed simp_all

lemma camelCaseDash_proto: "camelCaseDash p = ''__proto__'' \<longleftrightarrow> p = ''__proto__''"
proof
  assume e: "camelCaseDash p = ''__proto__''"
  have "\<forall>c \<in> set ''__proto__''. \<not> is_upper c"
    by (simp add: is_upper_def)
  with e have "camelCaseDash p = p"
    by (intro camelCaseDash_no_upper) simp
  with e show "p = ''__proto__''" by simp
next
  assume "p = ''__proto__''"
  then show "camelCaseDash p = ''__proto__''" by simp
qed

text \<open>
  Two packages with the same camel-cased name share one key, and the later one
  overwrites the path of the earlier one: for \<open>a-b\<close> followed by \<open>aB\<close>, the only key is
  \<open>aB\<close>, mapped to the module root of \<open>aB\<close>. A package named \<open>__proto__\<close> gets no key at
  all: the assignment to the inherited accessor creates no property.
\<close>

theorem entry_collision_counterexample:
  "camelCaseDash ''a-b'' = camelCaseDash ''aB''
   \<and> entry sample_externals [''a-b'', ''aB''] = [(''aB'', ''/repo/node_modules/@wordpress/aB'')]
   \<and> module_root sample_externals ''a-b'' = ''/repo/node_modules/@wordpress/a-b''
   \<and> map_of (entry sample_externals [''a-b'', ''aB'']) (camelCaseDash ''a-b'') \<noteq>
       Some (module_root sample_externals ''a-b'')
   \<and> entry sample_externals [''__proto__'', ''a11y''] =
       [(''a11y'', ''/repo/node_modules/@wordpress/a11y'')]"
  by code_simp

text \<open>
  C9, as amended. For every package name sequence, the keys of the entry map are exactly
  the camel-cased package names other than \<open>__proto__\<close>, each once, and \<open>__proto__\<close>, which
  is the camel-cased name of the package \<open>__proto__\<close> only, is never a key. Every package
  other than \<open>__proto__\<close> whose camel-cased name no other package of the sequence has is
  mapped, under that name, to its own module root path, the base directory joined with
  \<open>node_modules/@wordpress/\<close> and the package name. When \<open>__proto__\<close> is not a package and
  camel-casing is injective on the sequence, which it is when no name contains an
  upper-case letter, this holds for every package, and there are as many keys as different
  packages. The keys that are array indices are enumerated first, in ascending order. The
  packages \<open>a11y\<close> and \<open>api-fetch\<close> give the keys \<open>a11y\<close> and \<open>apiFetch\<close> with their module
  root paths.
\<close>

theorem entry_keys_and_paths:
  "set (Object_keys (entry x pkgs)) = camelCaseDash ` set pkgs - {''__proto__''}
   \<and> distinct (Object_keys (entry x pkgs))
   \<and> index_keys_first (Object_keys (entry x pkgs))
   \<and> map_of (entry x pkgs) ''__proto__'' = None
   \<and> (camelCaseDash p = ''__proto__'' \<longleftrightarrow> p = ''__proto__'')
   \<and> (\<forall>p \<in> set pkgs.
        p \<noteq> ''__proto__'' \<and> (\<forall>q \<in> set pkgs. camelCaseDash q = camelCaseDash p \<longrightarrow> q = p) \<longrightarrow>
        map_of (entry x pkgs) (camelCaseDash p) = Some (module_root x p))
   \<and> (''__proto__'' \<notin> set pkgs \<and> inj_on camelCaseDash (set pkgs) \<longrightarrow>
        length (Object_keys (entry x pkgs)) = card (set pkgs)
        \<and> (\<forall>p \<in> set pkgs. map_of (entry x pkgs) (camelCaseDash p) = Some (module_root x p)))
   \<and> ((\<forall>p \<in> set pkgs. \<forall>c \<in> set p. \<not> is_upper c) \<longrightarrow> inj_on camelCaseDash (set pkgs))
   \<and> module_root x p = join x (baseDir x) (''node_modules/@wordpress/'' @ p)
   \<and> entry x [''a11y'', ''api-fetch''] =
       [(''a11y'', module_root x ''a11y''), (''apiFetch'', module_root x ''api-fetch'')]"
proof -
  have own: "\<forall>p \<in> set pkgs.
      p \<noteq> ''__proto__'' \<and> (\<forall>q \<in> set pkgs. camelCaseDash q = camelCaseDash p \<longrightarrow> q = p) \<longrightarrow>
      map_of (entry x pkgs) (camelCaseDash p) = Some (module_root x p)"
  proof (intro ballI impI)
    fix p
    assume p: "p \<in> set pkgs"
      and h: "p \<noteq> ''__proto__'' \<and> (\<forall>q \<in> set pkgs. camelCaseDash q = camelCaseDash p \<longrightarrow> q = p)"
    from h have "camelCaseDash p \<noteq> ''__proto__''"
      by (simp add: camelCaseDash_proto)
    with p show "map_of (entry x pkgs) (camelCaseDash p) = Some (module_root x p)"
      using h by (intro entry_own_path) simp_all
  qed
  have inj: "length (Object_keys (entry x pkgs)) = card (set pkgs)
      \<and> (\<forall>p \<in> set pkgs. map_of (entry x pkgs) (camelCaseDash p) = Some (module_root x p))"
    if n: "''__proto__'' \<notin> set pkgs" and i: "inj_on camelCaseDash (set pkgs)"
  proof
    have np: "camelCaseDash q \<noteq> ''__proto__''" if "q \<in> set pkgs" for q
    proof
      assume "camelCaseDash q = ''__proto__''"
      then have "q = ''__proto__''" by (simp only: camelCaseDash_proto)
      with that n show False by simp
    qed
    have ni: "''__proto__'' \<notin> camelCaseDash ` set pkgs"
    proof
      assume "''__proto__'' \<in> camelCaseDash ` set pkgs"
      then obtain q where "q \<in> set pkgs" and "''__proto__'' = camelCaseDash q"
        by (rule imageE)
      with np [of q] show False by simp
    qed
    have "length (Object_keys (entry x pkgs)) = card (set (Object_keys (entry x pkgs)))"
      using entry_distinct [of x pkgs] by (simp add: distinct_card)
    also have "\<dots> = card (camelCaseDash ` set pkgs)"
      by (simp only: entry_keys Diff_insert0 [OF ni] Diff_empty)
    also have "\<dots> = card (set pkgs)" using i by (rule card_image)
    finally show "length (Object_keys (entry x pkgs)) = card (set pkgs)" .
    show "\<forall>p \<in> set pkgs. map_of (entry x pkgs) (camelCaseDash p) = Some (module_root x p)"
    proof
      fix p assume p: "p \<in> set pkgs"
      with i have u: "\<forall>q \<in> set pkgs. camelCaseDash q = camelCaseDash p \<longrightarrow> q = p"
        by (auto dest: inj_onD)
      from p have "camelCaseDash p \<noteq> ''__proto__''" by (rule np)
      with p show "map_of (entry x pkgs) (camelCaseDash p) = Some (module_root x p)"
        using u by (rule entry_own_path)
    qed
  qed
  have proto: "map_of (entry x pkgs) ''__proto__'' = None"
    by (simp add: entry_lookup)
  have ex: "entry x [''a11y'', ''api-fetch''] =
      [(''a11y'', module_root x ''a11y''), (''apiFetch'', module_root x ''api-fetch'')]"
  proof -
    have "camelCaseDash ''a11y'' = ''a11y''" "camelCaseDash ''api-fetch'' = ''apiFetch''"
      "\<not> is_array_index ''a11y''" "\<not> is_array_index ''apiFetch''"
      by code_simp+
    then show ?thesis by (simp add: entry_def module_root_def obj_assign_def)
  qed
  have mr: "module_root x p = join x (baseDir x) (''node_modules/@wordpress/'' @ p)"
    by (simp add: module_root_def)
  have dash: "(\<forall>p \<in> set pkgs. \<forall>c \<in> set p. \<not> is_upper c) \<longrightarrow>
      inj_on camelCaseDash (set pkgs)"
    using camelCaseDash_inj_dash_case [of "set pkgs"] by (rule impI)
  have inj': "''__proto__'' \<notin> set pkgs \<and> inj_on camelCaseDash (set pkgs) \<longrightarrow>
      length (Object_keys (entry x pkgs)) = card (set pkgs)
      \<and> (\<forall>p \<in> set pkgs. map_of (entry x pkgs) (camelCaseDash p) = Some (module_root x p))"
    using inj by (intro impI) (elim conjE)
  show ?thesis
    by (intro conjI entry_keys entry_distinct entry_index_keys_first proto camelCaseDash_proto
        own inj' dash mr ex)
qed

theorem entry_keys_and_paths_witness:
  "\<not> list_ex is_upper ''a11y'' \<and> \<not> list_ex is_upper ''api-fetch''
   \<and> ''__proto__'' \<notin> set [''a11y'', ''api-fetch'']
   \<and> inj_on camelCaseDash (set [''a11y'', ''api-fetch''])
   \<and> Object_keys (entry sample_externals [''a11y'', ''api-fetch'']) = [''a11y'', ''apiFetch'']
   \<and> length (Object_keys (entry sample_externals [''a11y'', ''api-fetch''])) =
       card (set [''a11y'', ''api-fetch''])
   \<and> map_of (entry sample_externals [''a11y'', ''api-fetch'']) (camelCaseDash ''a11y'') =
       Some ''/repo/node_modules/@wordpress/a11y''
   \<and> map_of (entry sample_externals [''a11y'', ''api-fetch'']) (camelCaseDash ''api-fetch'') =
       Some ''/repo/node_modules/@wordpress/api-fetch''
   \<and> Object_keys (entry sample_externals [''b'', ''10'', ''9'', ''__proto__'', ''07'']) =
       [''9'', ''10'', ''b'', ''07'']
   \<and> index_keys_first (Object_keys (entry sample_externals [''b'', ''10'', ''9'', ''__proto__'', ''07'']))"
proof -
  have u: "\<not> list_ex is_upper ''a11y''" "\<not> list_ex is_upper ''api-fetch''"
    by (simp_all add: is_upper_def)
  then have h: "\<forall>p \<in> set [''a11y'', ''api-fetch'']. \<forall>c \<in> set p. \<not> is_upper c"
    by (simp add: list_ex_iff)
  have n: "''__proto__'' \<notin> set [''a11y'', ''api-fetch'']" by simp
  have v: "Object_keys (entry sample_externals [''a11y'', ''api-fetch'']) = [''a11y'', ''apiFetch'']"
    "module_root sample_externals ''a11y'' = ''/repo/node_modules/@wordpress/a11y''"
    "module_root sample_externals ''api-fetch'' = ''/repo/node_modules/@wordpress/api-fetch''"
    "Object_keys (entry sample_externals [''b'', ''10'', ''9'', ''__proto__'', ''07'']) =
       [''9'', ''10'', ''b'', ''07'']"
    by code_simp+
  from entry_keys_and_paths [of sample_externals "[''a11y'', ''api-fetch'']"] h
  have i: "inj_on camelCaseDash (set [''a11y'', ''api-fetch''])" by blast
  with entry_keys_and_paths [of sample_externals "[''a11y'', ''api-fetch'']"] n
  have a: "length (Object_keys (entry sample_externals [''a11y'', ''api-fetch''])) =
        card (set [''a11y'', ''api-fetch''])
      \<and> (\<forall>p \<in> set [''a11y'', ''api-fetch''].
          map_of (entry sample_externals [''a11y'', ''api-fetch'']) (camelCaseDash p) =
            Some (module_root sample_externals p))"
    by blast
  from entry_keys_and_paths [of sample_externals "[''b'', ''10'', ''9'', ''__proto__'', ''07'']"]
  have o: "index_keys_first
      (Object_keys (entry sample_externals [''b'', ''10'', ''9'', ''__proto__'', ''07'']))"
    by blast
  from u n i v a o show ?thesis by (simp del: index_keys_first.simps)
qed

section \<open>The mode of the returned configuration\<close>

lemma initial_plugins_no_live_reload:
  "LiveReloadPlugin port \<notin> set (config_plugins (initial_config x env))"
  by (simp add: initial_config_def)

text \<open>
  C10. For a call in development mode: when the build-target override is exactly
  \<open>build/\<close>, the returned configuration has the mode \<open>production\<close>, minimisation switched
  off and no devtool, and its plugins are the initial ones, without a live-reload plugin;
  for every other override the mode stays \<open>development\<close>, the live-reload plugin is added
  behind the initial plugins, and the devtool is the SOURCEMAP variable of the environment
  when it is set and not empty, and \<open>source-map\<close> otherwise.
\<close>

theorem module_exports_development:
  "env_environment env = JStr ''development'' \<Longrightarrow>
   (env_buildTarget env = JStr ''build/'' \<longrightarrow>
      config_mode (module_exports x (Some env)) = JStr ''production''
      \<and> config_optimization_minimize (module_exports x (Some env)) = Some False
      \<and> config_devtool (module_exports x (Some env)) = None
      \<and> config_plugins (module_exports x (Some env)) = config_plugins (initial_config x env)
      \<and> (\<forall>port. LiveReloadPlugin port \<notin> set (config_plugins (module_exports x (Some env)))))
   \<and> (env_buildTarget env \<noteq> JStr ''build/'' \<longrightarrow>
      config_mode (module_exports x (Some env)) = JStr ''development''
      \<and> config_plugins (module_exports x (Some env)) =
          config_plugins (initial_config x env) @
            [LiveReloadPlugin (env_var_or (process_env x ''WORDPRESS_LIVE_RELOAD_PORT'') 35729)]
      \<and> config_devtool (module_exports x (Some env)) =
          Some (case process_env x ''SOURCEMAP'' of
                  None \<Rightarrow> ''source-map''
                | Some s \<Rightarrow> if s \<noteq> [] then s else ''source-map''))"
proof -
  assume dev: "env_environment env = JStr ''development''"
  have m: "config_mode (initial_config x env) = JStr ''development''"
    using dev by (simp add: initial_config_def mode_def)
  have build: "module_exports x (Some env) =
      (set_devtool x (initial_config x env))
        \<lparr> config_devtool := None, config_mode := JStr ''production'',
          config_optimization_minimize := Some False \<rparr>"
    if "env_buildTarget env = JStr ''build/''"
    using that dev
    by (simp add: module_exports_def env_of_def build_in_development_def add_live_reload_def
        mode_def)
  have other: "module_exports x (Some env) =
      (set_devtool x (initial_config x env))
        \<lparr> config_plugins := config_plugins (set_devtool x (initial_config x env)) @
            [LiveReloadPlugin (env_var_or (process_env x ''WORDPRESS_LIVE_RELOAD_PORT'') 35729)] \<rparr>"
    if "env_buildTarget env \<noteq> JStr ''build/''"
    using that dev m
    by (simp add: module_exports_def env_of_def build_in_development_def add_live_reload_def
        set_devtool_def)
  have sd: "set_devtool x (initial_config x env) =
      (initial_config x env) \<lparr> config_devtool :=
         Some (case process_env x ''SOURCEMAP'' of
                 None \<Rightarrow> ''source-map''
               | Some s \<Rightarrow> if s \<noteq> [] then s else ''source-map'') \<rparr>"
    using m by (simp add: set_devtool_def env_var_or_def split: option.split)
  show ?thesis
    using build other initial_plugins_no_live_reload [of _ x env]
    by (simp add: sd m)
qed

theorem module_exports_development_witness:
  "env_environment development_env = JStr ''development''
   \<and> env_buildTarget (development_env \<lparr> env_buildTarget := JStr ''build/'' \<rparr>) = JStr ''build/''
   \<and> config_mode (module_exports sample_externals
        (Some (development_env \<lparr> env_buildTarget := JStr ''build/'' \<rparr>))) = JStr ''production''
   \<and> config_optimization_minimize (module_exports sample_externals
        (Some (development_env \<lparr> env_buildTarget := JStr ''build/'' \<rparr>))) = Some False
   \<and> config_devtool (module_exports sample_externals
        (Some (development_env \<lparr> env_buildTarget := JStr ''build/'' \<rparr>))) = None
   \<and> length (config_plugins (module_exports sample_externals
        (Some (development_env \<lparr> env_buildTarget := JStr ''build/'' \<rparr>)))) = 5
   \<and> env_buildTarget development_env \<noteq> JStr ''build/''
   \<and> config_mode (module_exports sample_externals (Some development_env)) = JStr ''development''
   \<and> length (config_plugins (module_exports sample_externals (Some development_env))) = 6
   \<and> (case last (config_plugins (module_exports sample_externals (Some development_env))) of
         LiveReloadPlugin port \<Rightarrow> Some port | _ \<Rightarrow> None) = Some (Inr 35729)
   \<and> config_devtool (module_exports sample_externals (Some development_env)) = Some ''source-map''
   \<and> config_devtool (module_exports
        (sample_externals \<lparr> process_env := [''SOURCEMAP'' \<mapsto> ''eval''] \<rparr>)
        (Some development_env)) = Some ''eval''"
proof -
  let ?build = "development_env \<lparr> env_buildTarget := JStr ''build/'' \<rparr>"
  let ?x = "sample_externals \<lparr> process_env := [''SOURCEMAP'' \<mapsto> ''eval''] \<rparr>"
  have e: "env_environment development_env = JStr ''development''"
    "env_environment ?build = JStr ''development''"
    "env_buildTarget ?build = JStr ''build/''"
    "env_buildTarget development_env \<noteq> JStr ''build/''"
    by (simp_all add: development_env_def)
  have p: "process_env sample_externals ''SOURCEMAP'' = None"
    "process_env sample_externals ''WORDPRESS_LIVE_RELOAD_PORT'' = None"
    "process_env ?x ''SOURCEMAP'' = Some ''eval''"
    by (simp_all add: sample_externals_def)
  have l: "length (config_plugins (initial_config sample_externals env)) = 5" for env
    by (simp add: initial_config_def)
  show ?thesis
    using module_exports_development [OF e(2), of sample_externals]
      module_exports_development [OF e(1), of sample_externals]
      module_exports_development [OF e(1), of ?x] e l
    by (simp add: p env_var_or_def)
qed

end
